theory Spec2Isabelle
  imports Main "HOL-Library.Char_ord" "HOL-Library.List_Lexorder" "HOL-Library.AList"
    "HOL-Library.Sublist" "HOL-Library.Multiset"
begin

section \<open>ConfigStore: the data model of cli/apiconfig.go\<close>

text \<open>
  Go structs become records.  A pointer field (\<open>*APIAuth\<close>, \<open>*TLSConfig\<close>,
  \<open>*PKCS11Config\<close>, the \<open>*APIProfile\<close> values of the profile map) becomes an
  \<open>option\<close>, \<open>None\<close> being the nil pointer.  A \<open>map[string]string\<close> becomes a
  HOL map; the code reads these maps only with \<open>len\<close>, indexing and \<open>range\<close>, none
  of which tells a nil map from an empty one, so both are \<open>Map.empty\<close>.  The profile
  map and the registry are association lists: their \<open>range\<close> loops have a visible
  order (the order of the list stands for the order in which the Go runtime
  happens to visit the entries).
\<close>

record APIAuth =
  auth_Name :: string
  auth_Params :: "string \<rightharpoonup> string"

record PKCS11Config =
  pk_Path :: string
  pk_Label :: string

record TLSConfig =
  InsecureSkipVerify :: bool
  Cert :: string
  Key :: string
  CACert :: string
  PKCS11 :: "PKCS11Config option"

record APIProfile =
  prof_Base :: string
  Headers :: "string \<rightharpoonup> string"
  Query :: "string \<rightharpoonup> string"
  Auth :: "APIAuth option"

record APIConfig =
  name :: string
  Base :: string
  OperationBase :: string
  SpecFiles :: "string list"
  Profiles :: "(string \<times> APIProfile option) list"
  TLS :: "TLSConfig option"


subsection \<open>Zero values\<close>

definition emptyAuth :: APIAuth where
  "emptyAuth = \<lparr>auth_Name = [], auth_Params = Map.empty\<rparr>"

definition emptyPKCS11 :: PKCS11Config where
  "emptyPKCS11 = \<lparr>pk_Path = [], pk_Label = []\<rparr>"

definition emptyTLS :: TLSConfig where
  "emptyTLS = \<lparr>InsecureSkipVerify = False, Cert = [], Key = [], CACert = [], PKCS11 = None\<rparr>"

definition emptyProfile :: APIProfile where
  "emptyProfile = \<lparr>prof_Base = [], Headers = Map.empty, Query = Map.empty, Auth = None\<rparr>"

subsection \<open>deepMergeProfile\<close>

text \<open>
  \<open>for k, v := range source.Headers { dest.Headers[k] = v }\<close> visits every key of the
  source once and stores its value in the destination: whatever the order of the
  visit, the destination becomes \<open>dest ++ source\<close>.  \<open>rangeAssign\<close> is that loop over
  the entries in the order of one visit; \<open>rangeAssign_map_add\<close> below shows that
  the order does not matter.
\<close>

fun rangeAssign :: "('k \<times> 'v) list \<Rightarrow> ('k \<rightharpoonup> 'v) \<Rightarrow> ('k \<rightharpoonup> 'v)" where
  "rangeAssign [] dest = dest"
| "rangeAssign ((k, v) # kvs) dest = rangeAssign kvs (dest(k \<mapsto> v))"

definition mergeAuth :: "APIAuth option \<Rightarrow> APIAuth \<Rightarrow> APIAuth" where
  "mergeAuth destAuth sourceAuth =
     (let d = (case destAuth of None \<Rightarrow> emptyAuth | Some a \<Rightarrow> a)
      in d\<lparr>auth_Name := auth_Name sourceAuth,
            auth_Params := auth_Params d ++ auth_Params sourceAuth\<rparr>)"

definition deepMergeProfile :: "APIProfile \<Rightarrow> APIProfile \<Rightarrow> APIProfile" where
  "deepMergeProfile dest source =
     (let d1 = (if prof_Base source \<noteq> [] then dest\<lparr>prof_Base := prof_Base source\<rparr> else dest);
          d2 = (if Headers source \<noteq> Map.empty
                then d1\<lparr>Headers := Headers d1 ++ Headers source\<rparr> else d1);
          d3 = (if Query source \<noteq> Map.empty
                then d2\<lparr>Query := Query d2 ++ Query source\<rparr> else d2)
      in (case Auth source of
            None \<Rightarrow> d3
          | Some sa \<Rightarrow> d3\<lparr>Auth := Some (mergeAuth (Auth d3) sa)\<rparr>))"

subsection \<open>deepMergeAPIConfig\<close>

text \<open>
  The spec-file loop: \<open>existingSpecs\<close> is filled from the destination before the
  loop and is not updated inside it.
\<close>

fun appendNewSpecs :: "string set \<Rightarrow> string list \<Rightarrow> string list \<Rightarrow> string list" where
  "appendNewSpecs existingSpecs destSpecs [] = destSpecs"
| "appendNewSpecs existingSpecs destSpecs (spec # rest) =
     (if spec \<notin> existingSpecs
      then appendNewSpecs existingSpecs (destSpecs @ [spec]) rest
      else appendNewSpecs existingSpecs destSpecs rest)"

text \<open>\<open>m[k]\<close> on a \<open>map[string]*APIProfile\<close>: nil for a missing key and for a nil entry.\<close>

definition lookupProfile :: "(string \<times> APIProfile option) list \<Rightarrow> string \<Rightarrow> APIProfile option" where
  "lookupProfile ps n = (case map_of ps n of Some (Some p) \<Rightarrow> Some p | _ \<Rightarrow> None)"

fun mergeProfiles ::
  "(string \<times> APIProfile option) list \<Rightarrow> (string \<times> APIProfile option) list
    \<Rightarrow> (string \<times> APIProfile option) list" where
  "mergeProfiles destProfiles [] = destProfiles"
| "mergeProfiles destProfiles ((profileName, None) # rest) = mergeProfiles destProfiles rest"
| "mergeProfiles destProfiles ((profileName, Some sourceProfile) # rest) =
     mergeProfiles
       (AList.update profileName
          (Some (deepMergeProfile
                   (case lookupProfile destProfiles profileName of
                      None \<Rightarrow> emptyProfile | Some dp \<Rightarrow> dp)
                   sourceProfile))
          destProfiles)
       rest"

definition mergePKCS11 :: "PKCS11Config option \<Rightarrow> PKCS11Config \<Rightarrow> PKCS11Config" where
  "mergePKCS11 destPK sourcePK =
     (let d = (case destPK of None \<Rightarrow> emptyPKCS11 | Some p \<Rightarrow> p);
          d1 = (if pk_Path sourcePK \<noteq> [] then d\<lparr>pk_Path := pk_Path sourcePK\<rparr> else d)
      in (if pk_Label sourcePK \<noteq> [] then d1\<lparr>pk_Label := pk_Label sourcePK\<rparr> else d1))"

definition mergeTLS :: "TLSConfig option \<Rightarrow> TLSConfig \<Rightarrow> TLSConfig" where
  "mergeTLS destTLS sourceTLS =
     (let d = (case destTLS of None \<Rightarrow> emptyTLS | Some t \<Rightarrow> t);
          d1 = (if InsecureSkipVerify sourceTLS then d\<lparr>InsecureSkipVerify := True\<rparr> else d);
          d2 = (if Cert sourceTLS \<noteq> [] then d1\<lparr>Cert := Cert sourceTLS\<rparr> else d1);
          d3 = (if Key sourceTLS \<noteq> [] then d2\<lparr>Key := Key sourceTLS\<rparr> else d2);
          d4 = (if CACert sourceTLS \<noteq> [] then d3\<lparr>CACert := CACert sourceTLS\<rparr> else d3)
      in (case PKCS11 sourceTLS of
            None \<Rightarrow> d4
          | Some spk \<Rightarrow> d4\<lparr>PKCS11 := Some (mergePKCS11 (PKCS11 d4) spk)\<rparr>))"

definition deepMergeAPIConfig :: "APIConfig \<Rightarrow> APIConfig \<Rightarrow> APIConfig" where
  "deepMergeAPIConfig dest source =
     (let d1 = (if Base source \<noteq> [] then dest\<lparr>Base := Base source\<rparr> else dest);
          d2 = (if OperationBase source \<noteq> []
                then d1\<lparr>OperationBase := OperationBase source\<rparr> else d1);
          d3 = (if SpecFiles source \<noteq> []
                then d2\<lparr>SpecFiles :=
                        appendNewSpecs (set (SpecFiles d2)) (SpecFiles d2) (SpecFiles source)\<rparr>
                else d2);
          d4 = (if Profiles source \<noteq> []
                then d3\<lparr>Profiles := mergeProfiles (Profiles d3) (Profiles source)\<rparr>
                else d3)
      in (case TLS source of
            None \<Rightarrow> d4
          | Some st \<Rightarrow> d4\<lparr>TLS := Some (mergeTLS (TLS d4) st)\<rparr>))"

text \<open>
  The merge step of \<open>loadLocalConfig\<close> (the lines after the spec-file paths of
  \<open>localConfig\<close> have been resolved): an existing entry is deep-merged, a new one is
  stored as it is; in both cases the entry's \<open>name\<close> is the key.
\<close>

definition mergeLocalEntry ::
  "(string \<times> APIConfig) list \<Rightarrow> string \<Rightarrow> APIConfig \<Rightarrow> (string \<times> APIConfig) list" where
  "mergeLocalEntry configs k localConfig =
     (case map_of configs k of
        Some existingConfig \<Rightarrow>
          AList.update k ((deepMergeAPIConfig existingConfig (localConfig\<lparr>name := k\<rparr>))\<lparr>name := k\<rparr>) configs
      | None \<Rightarrow> AList.update k (localConfig\<lparr>name := k\<rparr>) configs)"

text \<open>Reading a field through a pointer that may be nil: nil reads as the zero value.\<close>

definition tlsOf :: "APIConfig \<Rightarrow> TLSConfig" where
  "tlsOf c = (case TLS c of None \<Rightarrow> emptyTLS | Some t \<Rightarrow> t)"

definition pkcs11Of :: "TLSConfig \<Rightarrow> PKCS11Config" where
  "pkcs11Of t = (case PKCS11 t of None \<Rightarrow> emptyPKCS11 | Some p \<Rightarrow> p)"

definition profileOf :: "APIConfig \<Rightarrow> string \<Rightarrow> APIProfile" where
  "profileOf c n = (case lookupProfile (Profiles c) n of None \<Rightarrow> emptyProfile | Some p \<Rightarrow> p)"

definition authOf :: "APIProfile \<Rightarrow> APIAuth" where
  "authOf p = (case Auth p of None \<Rightarrow> emptyAuth | Some a \<Rightarrow> a)"

definition insecure :: "APIConfig \<Rightarrow> bool" where
  "insecure c = (case TLS c of None \<Rightarrow> False | Some t \<Rightarrow> InsecureSkipVerify t)"


subsection \<open>validateProfile\<close>

text \<open>
  A Go \<open>error\<close> that is built with \<open>fmt.Errorf\<close> is its message; \<open>None\<close> is the nil
  error.  \<open>sort.Strings\<close> orders strings byte by byte, a proper prefix first, which
  is the order of \<open>char list\<close> with \<open>Char_ord\<close> and \<open>List_Lexorder\<close>.
\<close>

definition quoted :: "string \<Rightarrow> string" where
  "quoted s = [CHR 0x27] @ s @ [CHR 0x27]"

fun Join :: "string list \<Rightarrow> string \<Rightarrow> string" where
  "Join [] sep = []"
| "Join [x] sep = x"
| "Join (x # y # ys) sep = x @ sep @ Join (y # ys) sep"

definition validateProfile :: "string \<Rightarrow> APIConfig \<Rightarrow> string \<Rightarrow> string option" where
  "validateProfile profileName config configName =
     (if profileName = ''default'' \<and> lookupProfile (Profiles config) profileName = None
      then None
      else if lookupProfile (Profiles config) profileName \<noteq> None then None
      else
        (let available = sort (map fst (Profiles config)) in
         if length available = 0
         then Some (''profile '' @ quoted profileName @ '' not found for API '' @
                    quoted configName @ '' (no profiles defined)'')
         else Some (''profile '' @ quoted profileName @ '' not found for API '' @
                    quoted configName @ ''. Available profiles: '' @
                    Join available '', '')))"

subsection \<open>findAPI\<close>

text \<open>
  \<open>configs\<close> is the registry, its entries in the order in which the \<open>range\<close> loop
  visits them; \<open>apiName\<close> and \<open>profile\<close> are the settings \<open>api-name\<close> and
  \<open>rsh-profile\<close>.  The result \<open>("", nil)\<close> is \<open>None\<close>.
\<close>

definition HasPrefix :: "string \<Rightarrow> string \<Rightarrow> bool" where
  "HasPrefix s p = prefix p s"

fun findAPI ::
  "string \<Rightarrow> string \<Rightarrow> (string \<times> APIConfig) list \<Rightarrow> string \<Rightarrow> (string \<times> APIConfig) option" where
  "findAPI apiName profile [] uri = None"
| "findAPI apiName profile ((nm, config) # rest) uri =
     (if length apiName > 0 \<and> nm \<noteq> apiName then findAPI apiName profile rest uri
      else if profile \<noteq> ''default'' then
        (case lookupProfile (Profiles config) profile of
           None \<Rightarrow> findAPI apiName profile rest uri
         | Some p \<Rightarrow>
             if prof_Base p \<noteq> [] then
               (if HasPrefix uri (prof_Base p) then Some (nm, config)
                else findAPI apiName profile rest uri)
             else if HasPrefix uri (Base config) then Some (nm, config)
             else findAPI apiName profile rest uri)
      else if HasPrefix uri (Base config) then Some (nm, config)
      else findAPI apiName profile rest uri)"

text \<open>
  The lookup as the specification words it: the effective base of every candidate is
  its active profile's base when that profile defines one, else the API's own base.
\<close>

definition spec_effectiveBase :: "string \<Rightarrow> APIConfig \<Rightarrow> string" where
  "spec_effectiveBase profile config =
     (case lookupProfile (Profiles config) profile of
        None \<Rightarrow> Base config
      | Some p \<Rightarrow> if prof_Base p \<noteq> [] then prof_Base p else Base config)"

definition spec_findAPI ::
  "string \<Rightarrow> string \<Rightarrow> (string \<times> APIConfig) list \<Rightarrow> string \<Rightarrow> (string \<times> APIConfig) option" where
  "spec_findAPI apiName profile configs uri =
     find (\<lambda>(nm, config). (apiName = [] \<or> nm = apiName)
                            \<and> HasPrefix uri (spec_effectiveBase profile config)) configs"

text \<open>
  The base the code compares with: under the profile \<open>default\<close> the API's own base;
  under another profile nothing when the API does not have that profile, else the
  profile's base when it is not empty, else the API's own base.
\<close>

definition effectiveBase :: "string \<Rightarrow> APIConfig \<Rightarrow> string option" where
  "effectiveBase profile config =
     (if profile = ''default'' then Some (Base config)
      else (case lookupProfile (Profiles config) profile of
              None \<Rightarrow> None
            | Some p \<Rightarrow> Some (if prof_Base p \<noteq> [] then prof_Base p else Base config)))"

definition candidate :: "string \<Rightarrow> string \<Rightarrow> string \<Rightarrow> string \<times> APIConfig \<Rightarrow> bool" where
  "candidate apiName profile uri entry =
     ((apiName = [] \<or> fst entry = apiName)
      \<and> (case effectiveBase profile (snd entry) of
            None \<Rightarrow> False | Some b \<Rightarrow> HasPrefix uri b))"

subsection \<open>The duplicate-base check of initAPIConfig\<close>

text \<open>
  The last loop of \<open>initAPIConfig\<close>, over the registry that the configuration files
  were decoded into (an entry of a \<open>map[string]*APIConfig\<close> may be nil).  A panic is
  a value; otherwise the registry is returned with every entry's \<open>name\<close> set.
\<close>

datatype panic = DuplicateBase string | NilDereference

fun registerAPIs ::
  "string set \<Rightarrow> (string \<times> APIConfig option) list \<Rightarrow> panic + (string \<times> APIConfig) list" where
  "registerAPIs seen [] = Inr []"
| "registerAPIs seen ((apiName, None) # rest) = Inl NilDereference"
| "registerAPIs seen ((apiName, Some config) # rest) =
     (if Base config \<in> seen then Inl (DuplicateBase (Base config))
      else (case registerAPIs (insert (Base config) seen) rest of
              Inl p \<Rightarrow> Inl p
            | Inr registered \<Rightarrow> Inr ((apiName, config\<lparr>name := apiName\<rparr>) # registered)))"

subsection \<open>findAllLocalConfigs\<close>

text \<open>
  The working directory is a rooted, clean path: the list of its components, the
  root being the empty list.  On such paths \<open>filepath.Dir\<close> drops the last component
  (and maps the root to itself) and \<open>filepath.Join\<close> adds one.  \<open>stat p\<close> says that
  \<open>os.Stat p\<close> returns no error; \<open>getwd\<close> is \<open>None\<close> when \<open>os.Getwd\<close> fails.
\<close>

type_synonym dir = "string list"

definition Dir :: "dir \<Rightarrow> dir" where
  "Dir d = butlast d"

definition JoinPath :: "dir \<Rightarrow> string \<Rightarrow> string" where
  "JoinPath d f = concat (map (\<lambda>c. CHR ''/'' # c) (d @ [f]))"

function walkUp :: "(string \<Rightarrow> bool) \<Rightarrow> dir \<Rightarrow> string list \<Rightarrow> string list" where
  "walkUp stat d configPaths =
     (let configPaths' =
            (if stat (JoinPath d ''.restish.json'')
             then configPaths @ [JoinPath d ''.restish.json'']
             else if stat (JoinPath d ''.restish.yaml'')
             then configPaths @ [JoinPath d ''.restish.yaml'']
             else configPaths)
      in if Dir d = d then configPaths' else walkUp stat (Dir d) configPaths')"
  by pat_completeness auto
termination
proof (relation "measure (\<lambda>(stat, d, configPaths). length d)")
  show "wf (measure (\<lambda>(stat, d, configPaths). length d))" by simp
next
  fix stat :: "string \<Rightarrow> bool" and d :: dir and configPaths x :: "string list"
  assume "Dir d \<noteq> d"
  then have "d \<noteq> []" by (auto simp: Dir_def)
  then show "((stat, Dir d, x), (stat, d, configPaths))
               \<in> measure (\<lambda>(stat, d, configPaths). length d)"
    by (simp add: Dir_def)
qed

text \<open>The loop that swaps \<open>configPaths[i]\<close> and \<open>configPaths[j]\<close> while \<open>i < j\<close>.\<close>

function reverseInPlace :: "nat \<Rightarrow> int \<Rightarrow> 'a list \<Rightarrow> 'a list" where
  "reverseInPlace i j xs =
     (if int i < j
      then reverseInPlace (i + 1) (j - 1) (xs[i := xs ! nat j, nat j := xs ! i])
      else xs)"
  by pat_completeness auto
termination
  by (relation "measure (\<lambda>(i, j, xs). nat (j - int i))") auto

definition findAllLocalConfigs ::
  "string \<Rightarrow> (string \<Rightarrow> bool) \<Rightarrow> dir option \<Rightarrow> string list" where
  "findAllLocalConfigs rshConfig stat getwd =
     (if rshConfig \<noteq> [] \<and> stat rshConfig then [rshConfig]
      else (case getwd of
              None \<Rightarrow> []
            | Some cwd \<Rightarrow>
                (let configPaths = walkUp stat cwd []
                 in reverseInPlace 0 (int (length configPaths) - 1) configPaths)))"

text \<open>What one directory contributes: the JSON file if there is one, else the YAML file.\<close>

definition localConfigsAt :: "(string \<Rightarrow> bool) \<Rightarrow> dir \<Rightarrow> string list" where
  "localConfigsAt stat d =
     (if stat (JoinPath d ''.restish.json'') then [JoinPath d ''.restish.json'']
      else if stat (JoinPath d ''.restish.yaml'') then [JoinPath d ''.restish.yaml'']
      else [])"


section \<open>SpecCompiler: the OpenAPI loader\<close>

subsection \<open>Extensions\<close>

definition ExtName :: string where "ExtName = ''x-cli-name''"
definition ExtAliases :: string where "ExtAliases = ''x-cli-aliases''"
definition ExtDescription :: string where "ExtDescription = ''x-cli-description''"
definition ExtIgnore :: string where "ExtIgnore = ''x-cli-ignore''"
definition ExtHidden :: string where "ExtHidden = ''x-cli-hidden''"

text \<open>
  An extension map holds YAML nodes (\<open>'n\<close>).  Decoding a node into a Go type is the
  YAML library's work: \<open>decode\<close> stands for \<open>ext.Decode(&val)\<close> at the type asked
  for and is \<open>None\<close> when that returns an error.  \<open>getExt\<close> fails on a nil map as it
  does on a missing key, so a nil map is the empty map.
\<close>

definition getExt :: "('n \<Rightarrow> 'a option) \<Rightarrow> (string \<rightharpoonup> 'n) \<Rightarrow> string \<Rightarrow> 'a option" where
  "getExt decode v key = (case v key of None \<Rightarrow> None | Some ext \<Rightarrow> decode ext)"

definition getExtOr :: "('n \<Rightarrow> 'a option) \<Rightarrow> (string \<rightharpoonup> 'n) \<Rightarrow> string \<Rightarrow> 'a \<Rightarrow> 'a" where
  "getExtOr decode v key def = (case getExt decode v key of Some val \<Rightarrow> val | None \<Rightarrow> def)"

definition getExtSlice ::
  "('n \<Rightarrow> 'a list option) \<Rightarrow> (string \<rightharpoonup> 'n) \<Rightarrow> string \<Rightarrow> 'a list \<Rightarrow> 'a list" where
  "getExtSlice decode v key def = getExtOr decode v key def"

subsection \<open>Strings\<close>

definition Trim :: "string \<Rightarrow> string \<Rightarrow> string" where
  "Trim s cutset =
     rev (dropWhile (\<lambda>c. c \<in> set cutset) (rev (dropWhile (\<lambda>c. c \<in> set cutset) s)))"

definition TrimSuffix :: "string \<Rightarrow> string \<Rightarrow> string" where
  "TrimSuffix s suf = (if suffix suf s then take (length s - length suf) s else s)"

subsection \<open>openapiOperation: the operation's name and aliases\<close>

text \<open>
  \<open>Kebab\<close> is \<open>casing.Kebab\<close> and \<open>slugMake\<close> is \<open>slug.Make\<close>, functions of two
  libraries; \<open>decodeString\<close> and \<open>decodeStrings\<close> decode an extension node into a
  string and into a list of strings.  \<open>extensions\<close> and \<open>operationId\<close> are the
  operation's, \<open>path\<close> is \<open>uriTemplate.Path\<close>.  The result is the pair of the
  operation's \<open>Name\<close> and \<open>Aliases\<close>.
\<close>

definition operationNaming ::
  "(string \<Rightarrow> string) \<Rightarrow> (string \<Rightarrow> string) \<Rightarrow> ('n \<Rightarrow> string option)
    \<Rightarrow> ('n \<Rightarrow> string list option) \<Rightarrow> (string \<rightharpoonup> 'n) \<Rightarrow> string \<Rightarrow> string \<Rightarrow> string
    \<Rightarrow> string \<times> string list" where
  "operationNaming Kebab slugMake decodeString decodeStrings extensions operationId method path =
     (let aliases = getExtSlice decodeStrings extensions ExtAliases [];
          name0 = Kebab operationId;
          name1 = (if name0 = [] then Kebab (method @ ''-'' @ Trim path ''/'') else name0);
          override = getExtOr decodeString extensions ExtName []
      in if override \<noteq> [] then (override, aliases)
         else (let oldName = slugMake operationId
               in if oldName \<noteq> [] \<and> oldName \<noteq> name1 then (name1, aliases @ [oldName])
                  else (name1, aliases)))"

text \<open>
  The aliases as the specification words them: the legacy slug is kept whenever it
  is not empty and differs from the chosen name.
\<close>

definition spec_aliases :: "string list \<Rightarrow> string \<Rightarrow> string \<Rightarrow> string list" where
  "spec_aliases declared oldName chosen =
     (if oldName \<noteq> [] \<and> oldName \<noteq> chosen then declared @ [oldName] else declared)"

text \<open>
  Stand-ins for the two library functions at the inputs used below:
  \<open>casing.Kebab\<close> splits at case changes and separators and joins the lower-cased
  words with dashes; \<open>slug.Make\<close> lower-cases and keeps letters and digits.
\<close>

definition exKebab :: "string \<Rightarrow> string" where
  "exKebab s = (if s = ''getWidget'' then ''get-widget''
                else if s = ''GET-widgets/{id}'' then ''get-widgets-id'' else [])"

definition exSlug :: "string \<Rightarrow> string" where
  "exSlug s = (if s = ''getWidget'' then ''getwidget'' else [])"

subsection \<open>openapiOperation: the parameters\<close>

text \<open>
  The fields of \<open>base.Schema\<close>, \<open>v3.Parameter\<close> and \<open>cli.Param\<close> that the parameter
  loop reads and writes.  \<open>'n\<close> is a YAML node and \<open>'v\<close> a decoded value; a Go
  \<open>interface{}\<close> is a \<open>'v option\<close>, \<open>None\<close> being nil.  Of an item schema
  (\<open>s.Items.A.Schema()\<close>) only the \<open>Type\<close> is read; \<open>ItemsA None\<close> is a proxy that
  yields no schema.  \<open>parameter_Schema\<close> is \<open>None\<close> when \<open>p.Schema\<close> or
  \<open>p.Schema.Schema()\<close> is nil.
\<close>

datatype SchemaItems = ItemsA "string list option" | ItemsB bool

record 'n Schema =
  schema_Type :: "string list"
  schema_Items :: "SchemaItems option"
  schema_Default :: "'n option"
  schema_Example :: "'n option"

record 'n Parameter =
  parameter_Name :: string
  parameter_In :: string
  parameter_Description :: string
  parameter_Style :: string
  parameter_Explode :: "bool option"
  parameter_Schema :: "'n Schema option"
  parameter_Example :: "'n option"
  parameter_Extensions :: "string \<rightharpoonup> 'n"

datatype Style = StyleSimple | StyleForm

record 'v Param =
  param_Type :: string
  param_Name :: string
  param_DisplayName :: string
  param_Description :: string
  param_Style :: Style
  param_Explode :: bool
  param_Default :: "'v option"
  param_Example :: "'v option"

text \<open>\<open>log.Fatal\<close> ends the process with the error; a nil pointer that is read panics.\<close>

datatype fatal = Fatal string | NilPointer

text \<open>
  The two loops that fill \<open>combinedParams\<close>: the operation's parameters, each marked
  as seen by name, then the path item's parameters that were not seen.
\<close>

fun addOperationParams ::
  "'n Parameter list \<Rightarrow> 'n Parameter list \<times> string set \<Rightarrow> 'n Parameter list \<times> string set" where
  "addOperationParams [] (combinedParams, seen) = (combinedParams, seen)"
| "addOperationParams (p # ps) (combinedParams, seen) =
     addOperationParams ps (combinedParams @ [p], insert (parameter_Name p) seen)"

fun addPathParams ::
  "'n Parameter list \<Rightarrow> string set \<Rightarrow> 'n Parameter list \<Rightarrow> 'n Parameter list" where
  "addPathParams [] seen combinedParams = combinedParams"
| "addPathParams (p # ps) seen combinedParams =
     (if parameter_Name p \<notin> seen then addPathParams ps seen (combinedParams @ [p])
      else addPathParams ps seen combinedParams)"

definition combineParams :: "'n Parameter list \<Rightarrow> 'n Parameter list \<Rightarrow> 'n Parameter list" where
  "combineParams opParameters pathParameters =
     (case addOperationParams opParameters ([], {}) of
        (combinedParams, seen) \<Rightarrow> addPathParams pathParameters seen combinedParams)"

text \<open>
  The type of a parameter from its schema: the first declared type, \<open>string\<close> when
  there is none, and for an array the first type of its items in brackets.
\<close>

definition schemaType :: "'n Schema \<Rightarrow> fatal + string" where
  "schemaType s =
     (let typ = (if length (schema_Type s) > 0 then hd (schema_Type s) else ''string'')
      in if typ = ''array'' then
           (case schema_Items s of
              Some (ItemsA None) \<Rightarrow> Inl NilPointer
            | Some (ItemsA (Some itemsType)) \<Rightarrow>
                Inr (if length itemsType > 0 then typ @ ''['' @ hd itemsType @ '']'' else typ)
            | _ \<Rightarrow> Inr typ)
         else Inr typ)"

text \<open>\<open>decodeYAML\<close> is the YAML library's decoding of a node, \<open>Inl\<close> its error.\<close>

definition decodeOrFatal :: "('n \<Rightarrow> string + 'v option) \<Rightarrow> 'n \<Rightarrow> fatal + 'v option" where
  "decodeOrFatal decodeYAML node =
     (case decodeYAML node of Inl err \<Rightarrow> Inl (Fatal err) | Inr v \<Rightarrow> Inr v)"

text \<open>
  The block \<open>if p.Schema != nil && p.Schema.Schema() != nil\<close>: the type, the default
  and the schema's example, which start as \<open>string\<close>, nil and nil.
\<close>

definition schemaInfo ::
  "('n \<Rightarrow> string + 'v option) \<Rightarrow> 'n Schema option
    \<Rightarrow> fatal + (string \<times> 'v option \<times> 'v option)" where
  "schemaInfo decodeYAML schema =
     (case schema of
        None \<Rightarrow> Inr (''string'', None, None)
      | Some s \<Rightarrow>
          (case schemaType s of
             Inl f \<Rightarrow> Inl f
           | Inr typ \<Rightarrow>
               (case (case schema_Default s of
                        None \<Rightarrow> Inr None
                      | Some node \<Rightarrow> decodeOrFatal decodeYAML node) of
                  Inl f \<Rightarrow> Inl f
                | Inr def \<Rightarrow>
                    (case (case schema_Example s of
                             None \<Rightarrow> Inr None
                           | Some node \<Rightarrow> decodeOrFatal decodeYAML node) of
                       Inl f \<Rightarrow> Inl f
                     | Inr example \<Rightarrow> Inr (typ, def, example)))))"

text \<open>
  The body of the loop over \<open>combinedParams\<close> up to the \<open>switch\<close>: \<open>Inr None\<close> for an
  ignored parameter (\<open>continue\<close>), else the \<open>cli.Param\<close> and the schema.
\<close>

definition compileParam ::
  "('n \<Rightarrow> bool option) \<Rightarrow> ('n \<Rightarrow> string option) \<Rightarrow> ('n \<Rightarrow> string + 'v option)
    \<Rightarrow> 'n Parameter \<Rightarrow> fatal + ('v Param \<times> 'n Schema option) option" where
  "compileParam decodeBool decodeString decodeYAML p =
     (if getExtOr decodeBool (parameter_Extensions p) ExtIgnore False then Inr None
      else
        (case schemaInfo decodeYAML (parameter_Schema p) of
           Inl f \<Rightarrow> Inl f
         | Inr (typ, def, schemaExample) \<Rightarrow>
             (case (case parameter_Example p of
                      None \<Rightarrow> Inr schemaExample
                    | Some node \<Rightarrow> decodeOrFatal decodeYAML node) of
                Inl f \<Rightarrow> Inl f
              | Inr example \<Rightarrow>
                  Inr (Some
                    (\<lparr>param_Type = typ,
                      param_Name = parameter_Name p,
                      param_DisplayName = getExtOr decodeString (parameter_Extensions p) ExtName [],
                      param_Description =
                        getExtOr decodeString (parameter_Extensions p) ExtDescription
                          (parameter_Description p),
                      param_Style =
                        (if parameter_Style p = ''form'' then StyleForm else StyleSimple),
                      param_Explode =
                        (case parameter_Explode p of None \<Rightarrow> False | Some b \<Rightarrow> b),
                      param_Default = def,
                      param_Example = example\<rparr>,
                     parameter_Schema p)))))"

record ('n, 'v) ParamLists =
  pathParams :: "'v Param list"
  pathSchemas :: "'n Schema option list"
  queryParams :: "'v Param list"
  querySchemas :: "'n Schema option list"
  headerParams :: "'v Param list"
  headerSchemas :: "'n Schema option list"

definition noParams :: "('n, 'v) ParamLists" where
  "noParams = \<lparr>pathParams = [], pathSchemas = [], queryParams = [], querySchemas = [],
               headerParams = [], headerSchemas = []\<rparr>"

text \<open>The \<open>switch p.In\<close>; a parameter that is in none of the three places is dropped.\<close>

definition addParam ::
  "string \<Rightarrow> 'v Param \<Rightarrow> 'n Schema option \<Rightarrow> ('n, 'v) ParamLists \<Rightarrow> ('n, 'v) ParamLists" where
  "addParam place param schema plists =
     (if place = ''path'' then
        plists\<lparr>pathParams := pathParams plists @ [param],
              pathSchemas := pathSchemas plists @ [schema]\<rparr>
      else if place = ''query'' then
        plists\<lparr>queryParams := queryParams plists @ [param],
              querySchemas := querySchemas plists @ [schema]\<rparr>
      else if place = ''header'' then
        plists\<lparr>headerParams := headerParams plists @ [param],
              headerSchemas := headerSchemas plists @ [schema]\<rparr>
      else plists)"

fun collectParams ::
  "('n \<Rightarrow> bool option) \<Rightarrow> ('n \<Rightarrow> string option) \<Rightarrow> ('n \<Rightarrow> string + 'v option)
    \<Rightarrow> 'n Parameter list \<Rightarrow> ('n, 'v) ParamLists \<Rightarrow> fatal + ('n, 'v) ParamLists" where
  "collectParams decodeBool decodeString decodeYAML [] plists = Inr plists"
| "collectParams decodeBool decodeString decodeYAML (p # ps) plists =
     (case compileParam decodeBool decodeString decodeYAML p of
        Inl f \<Rightarrow> Inl f
      | Inr None \<Rightarrow> collectParams decodeBool decodeString decodeYAML ps plists
      | Inr (Some (param, schema)) \<Rightarrow>
          collectParams decodeBool decodeString decodeYAML ps
            (addParam (parameter_In p) param schema plists))"

definition operationParams ::
  "('n \<Rightarrow> bool option) \<Rightarrow> ('n \<Rightarrow> string option) \<Rightarrow> ('n \<Rightarrow> string + 'v option)
    \<Rightarrow> 'n Parameter list \<Rightarrow> 'n Parameter list \<Rightarrow> fatal + ('n, 'v) ParamLists" where
  "operationParams decodeBool decodeString decodeYAML opParameters pathParameters =
     collectParams decodeBool decodeString decodeYAML
       (combineParams opParameters pathParameters) noParams"

text \<open>
  The example of a parameter as the specification words it: the parameter's example,
  else the schema's example, else the schema's default.
\<close>

definition spec_example :: "'v option \<Rightarrow> 'v option \<Rightarrow> 'v option \<Rightarrow> 'v option" where
  "spec_example parameterExample schemaExample schemaDefault =
     (case parameterExample of
        Some v \<Rightarrow> Some v
      | None \<Rightarrow> (case schemaExample of Some v \<Rightarrow> Some v | None \<Rightarrow> schemaDefault))"

text \<open>
  The parameters that the loop compiles, each with its place: those that are not
  ignored.  \<open>paramsIn\<close> selects the ones of one place, in order.
\<close>

definition compiledParams ::
  "('n \<Rightarrow> bool option) \<Rightarrow> ('n \<Rightarrow> string option) \<Rightarrow> ('n \<Rightarrow> string + 'v option)
    \<Rightarrow> 'n Parameter list \<Rightarrow> (string \<times> 'v Param \<times> 'n Schema option) list" where
  "compiledParams decodeBool decodeString decodeYAML ps =
     List.map_filter
       (\<lambda>p. case compileParam decodeBool decodeString decodeYAML p of
               Inr (Some (param, schema)) \<Rightarrow> Some (parameter_In p, param, schema)
             | _ \<Rightarrow> None) ps"

definition paramsIn :: "string \<Rightarrow> (string \<times> 'v Param \<times> 'n Schema option) list \<Rightarrow> 'v Param list" where
  "paramsIn place cps = map (\<lambda>c. fst (snd c)) (filter (\<lambda>c. fst c = place) cps)"

subsection \<open>getBasePath\<close>

text \<open>
  The fields of \<open>url.URL\<close> and \<open>v3.Server\<close> that \<open>getBasePath\<close> reads; the variables
  of a server are an ordered map, here the list of its entries from the oldest.
\<close>

record URL =
  url_Scheme :: string
  url_Host :: string
  url_Path :: string

record ServerVariable =
  var_Enum :: "string list"
  var_Default :: string

record Server =
  server_URL :: string
  server_Variables :: "(string \<times> ServerVariable) list"

text \<open>
  \<open>strings.ReplaceAll\<close> for a non-empty \<open>old\<close>: the occurrences are replaced from the
  left and do not overlap.  \<open>getBasePath\<close> calls it with \<open>{name}\<close>, which is never
  empty; for an empty \<open>old\<close> the string is returned as it is.
\<close>

function ReplaceAll :: "string \<Rightarrow> string \<Rightarrow> string \<Rightarrow> string" where
  "ReplaceAll [] old new = []"
| "ReplaceAll (c # cs) old new =
     (if old \<noteq> [] \<and> prefix old (c # cs)
      then new @ ReplaceAll (drop (length old) (c # cs)) old new
      else c # ReplaceAll cs old new)"
  by pat_completeness auto
termination
  by (relation "measure (\<lambda>(s, old, new). length s)") auto

text \<open>
  One round of the loop over the variables: without an enumeration every endpoint
  gets the default; with one, \<open>nEndpoints[i+j*len(endpoints)]\<close> is endpoint \<open>i\<close> with
  the \<open>j\<close>-th enumerated value.
\<close>

definition expandVariable :: "string list \<Rightarrow> string \<times> ServerVariable \<Rightarrow> string list" where
  "expandVariable endpoints kv =
     (let key = ''{'' @ fst kv @ ''}''; v = snd kv
      in if length (var_Enum v) = 0
         then map (\<lambda>e. ReplaceAll e key (var_Default v)) endpoints
         else concat (map (\<lambda>val. map (\<lambda>e. ReplaceAll e key val) endpoints) (var_Enum v)))"

definition expandServer :: "Server \<Rightarrow> string list" where
  "expandServer s = foldl expandVariable [server_URL s] (server_Variables s)"

definition locationPrefix :: "URL \<Rightarrow> string" where
  "locationPrefix location = url_Scheme location @ ''://'' @ url_Host location"

text \<open>\<open>urlParse\<close> is \<open>url.Parse\<close> of the standard library, \<open>Inl\<close> its error.\<close>

fun getBasePath :: "(string \<Rightarrow> string + URL) \<Rightarrow> URL \<Rightarrow> Server list \<Rightarrow> string + string" where
  "getBasePath urlParse location [] = Inr (url_Path location)"
| "getBasePath urlParse location (s # servers) =
     (if HasPrefix (server_URL s) ''/'' then Inr (server_URL s)
      else (case find (\<lambda>e. HasPrefix e (locationPrefix location)) (expandServer s) of
              Some e \<Rightarrow>
                (case urlParse e of
                   Inl err \<Rightarrow> Inl err
                 | Inr base \<Rightarrow> Inr (TrimSuffix (url_Path base) ''/''))
            | None \<Rightarrow> getBasePath urlParse location servers))"

text \<open>
  The values a variable can take, the choices of one value for each variable, and
  the URL with the chosen values substituted in the order of the variables.
\<close>

definition candidates :: "ServerVariable \<Rightarrow> string list" where
  "candidates v = (if var_Enum v = [] then [var_Default v] else var_Enum v)"

fun choices :: "(string \<times> ServerVariable) list \<Rightarrow> string list list" where
  "choices [] = [[]]"
| "choices (kv # vars) =
     concat (map (\<lambda>val. map (\<lambda>vals. val # vals) (choices vars)) (candidates (snd kv)))"

fun substitute :: "string \<Rightarrow> (string \<times> ServerVariable) list \<Rightarrow> string list \<Rightarrow> string" where
  "substitute url (kv # vars) (val # vals) =
     substitute (ReplaceAll url (''{'' @ fst kv @ ''}'') val) vars vals"
| "substitute url vars vals = url"

text \<open>
  The base path as the specification words it: the path of the first expanded URL
  whose scheme and host are those of the configured base, else the base's own path.
\<close>

definition spec_getBasePath :: "(string \<Rightarrow> string + URL) \<Rightarrow> URL \<Rightarrow> Server list \<Rightarrow> string + string" where
  "spec_getBasePath urlParse location servers =
     (case find (\<lambda>e. case urlParse e of
                        Inl err \<Rightarrow> False
                      | Inr u \<Rightarrow> url_Scheme u = url_Scheme location
                                 \<and> url_Host u = url_Host location)
             (concat (map expandServer servers)) of
        None \<Rightarrow> Inr (url_Path location)
      | Some e \<Rightarrow> (case urlParse e of
                     Inl err \<Rightarrow> Inl err
                   | Inr u \<Rightarrow> Inr (TrimSuffix (url_Path u) ''/'')))"

subsection \<open>openapiOperation: the response sections\<close>






























section \<open>Concrete inputs\<close>

definition exGlobalFoo :: APIConfig where
  "exGlobalFoo =
     \<lparr>name = ''foo'', Base = ''https://global.example.com'', OperationBase = [],
      SpecFiles = [''a.yaml'', ''b.yaml''],
      Profiles = [(''default'',
         Some \<lparr>prof_Base = [], Headers = [''a'' \<mapsto> ''1''], Query = Map.empty, Auth = None\<rparr>)],
      TLS = Some \<lparr>InsecureSkipVerify = True, Cert = ''g.pem'', Key = [], CACert = [],
                  PKCS11 = None\<rparr>\<rparr>"

definition exLocalFoo :: APIConfig where
  "exLocalFoo =
     \<lparr>name = ''foo'', Base = ''https://local.example.com'', OperationBase = [],
      SpecFiles = [''b.yaml'', ''c.yaml''],
      Profiles = [(''default'',
         Some \<lparr>prof_Base = [], Headers = [''b'' \<mapsto> ''2''], Query = Map.empty, Auth = None\<rparr>)],
      TLS = Some \<lparr>InsecureSkipVerify = False, Cert = [], Key = ''l.key'', CACert = [],
                  PKCS11 = None\<rparr>\<rparr>"

definition exProdOnly :: APIConfig where
  "exProdOnly =
     \<lparr>name = ''foo'', Base = ''https://api.example.com'', OperationBase = [], SpecFiles = [],
      Profiles = [(''prod'',
         Some \<lparr>prof_Base = [], Headers = Map.empty, Query = Map.empty, Auth = None\<rparr>)],
      TLS = None\<rparr>"

definition exBaseA :: APIConfig where
  "exBaseA = \<lparr>name = ''a'', Base = ''/a'', OperationBase = [], SpecFiles = [],
              Profiles = [], TLS = None\<rparr>"

definition exBaseAB :: APIConfig where
  "exBaseAB = \<lparr>name = ''ab'', Base = ''/a/b'', OperationBase = [], SpecFiles = [],
               Profiles = [], TLS = None\<rparr>"

definition exDefaultProfileBase :: APIConfig where
  "exDefaultProfileBase =
     \<lparr>name = ''foo'', Base = ''/a'', OperationBase = [], SpecFiles = [],
      Profiles = [(''default'',
         Some \<lparr>prof_Base = ''/p'', Headers = Map.empty, Query = Map.empty, Auth = None\<rparr>)],
      TLS = None\<rparr>"

text \<open>
  A stand-in for the YAML library: a node is its text, every node decodes to a
  value, and the booleans are \<open>true\<close> and \<open>false\<close>.
\<close>

definition exDecodeBool :: "string \<Rightarrow> bool option" where
  "exDecodeBool n = (if n = ''true'' then Some True else if n = ''false'' then Some False else None)"

definition exDecodeYAML :: "string \<Rightarrow> string + string option" where
  "exDecodeYAML n = Inr (Some n)"

definition exParamLimit :: "string Parameter" where
  "exParamLimit =
     \<lparr>parameter_Name = ''limit'', parameter_In = ''query'', parameter_Description = [],
      parameter_Style = ''form'', parameter_Explode = Some True,
      parameter_Schema = Some \<lparr>schema_Type = [''integer''], schema_Items = None,
                               schema_Default = Some ''10'', schema_Example = None\<rparr>,
      parameter_Example = None, parameter_Extensions = Map.empty\<rparr>"

definition exParamTags :: "string Parameter" where
  "exParamTags =
     \<lparr>parameter_Name = ''tags'', parameter_In = ''query'', parameter_Description = [],
      parameter_Style = [], parameter_Explode = None,
      parameter_Schema = Some \<lparr>schema_Type = [''array''],
                               schema_Items = Some (ItemsA (Some [''string''])),
                               schema_Default = Some ''d'', schema_Example = Some ''s''\<rparr>,
      parameter_Example = Some ''p'', parameter_Extensions = Map.empty\<rparr>"

definition exParamLimitPath :: "string Parameter" where
  "exParamLimitPath =
     \<lparr>parameter_Name = ''limit'', parameter_In = ''header'', parameter_Description = [],
      parameter_Style = [], parameter_Explode = None, parameter_Schema = None,
      parameter_Example = None, parameter_Extensions = Map.empty\<rparr>"

definition exParamId :: "string Parameter" where
  "exParamId =
     \<lparr>parameter_Name = ''id'', parameter_In = ''path'', parameter_Description = [],
      parameter_Style = [], parameter_Explode = None, parameter_Schema = None,
      parameter_Example = None, parameter_Extensions = Map.empty\<rparr>"

text \<open>A stand-in for \<open>url.Parse\<close> at the URLs used below.\<close>

definition exUrlParse :: "string \<Rightarrow> string + URL" where
  "exUrlParse u =
     (if u = ''/v1'' then Inr \<lparr>url_Scheme = [], url_Host = [], url_Path = ''/v1''\<rparr>
      else if u = ''https://api.example.com/us/v2/'' then
        Inr \<lparr>url_Scheme = ''https'', url_Host = ''api.example.com'', url_Path = ''/us/v2/''\<rparr>
      else if u = ''https://api.example.community/v3'' then
        Inr \<lparr>url_Scheme = ''https'', url_Host = ''api.example.community'', url_Path = ''/v3''\<rparr>
      else Inl ''parse error'')"

definition exLocation :: URL where
  "exLocation = \<lparr>url_Scheme = ''https'', url_Host = ''api.example.com'', url_Path = ''/foo''\<rparr>"

definition exServerVars :: Server where
  "exServerVars =
     \<lparr>server_URL = ''https://{host}/{region}/{version}/'',
      server_Variables =
        [(''host'', \<lparr>var_Enum = [''staging.example.com'', ''api.example.com''], var_Default = ''api.example.com''\<rparr>),
         (''region'', \<lparr>var_Enum = [''us'', ''eu''], var_Default = ''us''\<rparr>),
         (''version'', \<lparr>var_Enum = [], var_Default = ''v2''\<rparr>)]\<rparr>"

definition exServerRelative :: Server where
  "exServerRelative = \<lparr>server_URL = ''/v1'', server_Variables = []\<rparr>"

definition exServerOtherHost :: Server where
  "exServerOtherHost =
     \<lparr>server_URL = ''https://api.example.community/v3'', server_Variables = []\<rparr>"





text \<open>File systems: the files that exist.\<close>

definition exStatProj :: "string \<Rightarrow> bool" where
  "exStatProj p = (p = ''/proj/.restish.json'')"

definition exStatTree :: "string \<Rightarrow> bool" where
  "exStatTree p = (p \<in> {''/.restish.yaml'', ''/home/proj/.restish.json'',
                        ''/home/proj/.restish.yaml''})"

definition exStatOverride :: "string \<Rightarrow> bool" where
  "exStatOverride p = (p \<in> {''my.json'', ''/home/.restish.json''})"

text \<open>An extension decoder that never yields a list, and the hash of a schema text.\<close>

definition exNoStrings :: "string \<Rightarrow> string list option" where
  "exNoStrings n = None"


section \<open>Deep merge\<close>

lemma rangeAssign_map_add:
  "distinct (map fst kvs) \<Longrightarrow> rangeAssign kvs dest = dest ++ map_of kvs"
proof (induction kvs arbitrary: dest)
  case Nil
  then show ?case by simp
next
  case (Cons kv kvs)
  obtain k v where kv: "kv = (k, v)" by (cases kv)
  from Cons.prems kv have nk: "k \<notin> fst ` set kvs" and d: "distinct (map fst kvs)" by auto
  have "rangeAssign (kv # kvs) dest = (dest(k \<mapsto> v)) ++ map_of kvs"
    unfolding kv rangeAssign.simps by (rule Cons.IH [OF d])
  also have "\<dots> = dest ++ map_of (kv # kvs)"
  proof (rule ext)
    fix x
    show "((dest(k \<mapsto> v)) ++ map_of kvs) x = (dest ++ map_of (kv # kvs)) x"
    proof (cases "x = k")
      case True
      from nk have "map_of kvs k = None" by (simp add: map_of_eq_None_iff)
      with True kv show ?thesis by (simp add: map_add_def)
    next
      case False
      with kv show ?thesis by (simp add: map_add_def split: option.splits)
    qed
  qed
  finally show ?case .
qed

lemma appendNewSpecs_filter:
  "appendNewSpecs E acc src = acc @ filter (\<lambda>x. x \<notin> E) src"
  by (induction src arbitrary: acc) auto


lemma lookupProfile_update:
  "lookupProfile (AList.update k v ps) n = (if n = k then v else lookupProfile ps n)"
  by (cases v) (simp_all add: lookupProfile_def update_conv')

lemma lookupProfile_Cons:
  "lookupProfile ((k, v) # ps) n = (if n = k then v else lookupProfile ps n)"
  by (cases v) (simp_all add: lookupProfile_def)

lemma lookupProfile_notin:
  "n \<notin> fst ` set ps \<Longrightarrow> lookupProfile ps n = None"
proof -
  assume "n \<notin> fst ` set ps"
  then have "map_of ps n = None" by (simp add: map_of_eq_None_iff)
  then show ?thesis by (simp add: lookupProfile_def)
qed

lemma mergeProfiles_notin:
  "n \<notin> fst ` set sps \<Longrightarrow> lookupProfile (mergeProfiles dps sps) n = lookupProfile dps n"
proof (induction dps sps rule: mergeProfiles.induct)
  case (1 destProfiles)
  then show ?case by simp
next
  case (2 destProfiles profileName rest)
  then show ?case by simp
next
  case (3 destProfiles profileName sourceProfile rest)
  then show ?case by (simp add: lookupProfile_update)
qed

lemma mergeProfiles_lookup:
  "distinct (map fst sps) \<Longrightarrow>
   lookupProfile (mergeProfiles dps sps) n =
     (case lookupProfile sps n of
        None \<Rightarrow> lookupProfile dps n
      | Some sp \<Rightarrow>
          Some (deepMergeProfile
                  (case lookupProfile dps n of None \<Rightarrow> emptyProfile | Some dp \<Rightarrow> dp) sp))"
proof (induction dps sps rule: mergeProfiles.induct)
  case (1 destProfiles)
  then show ?case by (simp add: lookupProfile_def)
next
  case (2 destProfiles profileName rest)
  then show ?case by (simp add: lookupProfile_Cons lookupProfile_notin)
next
  case (3 destProfiles profileName sourceProfile rest)
  from "3.prems" have nin: "profileName \<notin> fst ` set rest" and d: "distinct (map fst rest)"
    by auto
  show ?case
  proof (cases "n = profileName")
    case True
    then show ?thesis
      using nin by (simp add: lookupProfile_Cons mergeProfiles_notin lookupProfile_update)
  next
    case False
    then show ?thesis
      using "3.IH" [OF d]
      by (simp add: lookupProfile_Cons lookupProfile_update split: option.splits)
  qed
qed

lemma deepMergeProfile_fields:
  "prof_Base (deepMergeProfile d s) = (if prof_Base s \<noteq> [] then prof_Base s else prof_Base d)"
  "Headers (deepMergeProfile d s) = Headers d ++ Headers s"
  "Query (deepMergeProfile d s) = Query d ++ Query s"
  "Auth (deepMergeProfile d s) =
     (case Auth s of None \<Rightarrow> Auth d | Some sa \<Rightarrow> Some (mergeAuth (Auth d) sa))"
  by (simp_all add: deepMergeProfile_def Let_def split: option.splits)

lemma deepMergeAPIConfig_fields:
  "name (deepMergeAPIConfig d s) = name d"
  "Base (deepMergeAPIConfig d s) = (if Base s \<noteq> [] then Base s else Base d)"
  "OperationBase (deepMergeAPIConfig d s) =
     (if OperationBase s \<noteq> [] then OperationBase s else OperationBase d)"
  "SpecFiles (deepMergeAPIConfig d s) =
     SpecFiles d @ filter (\<lambda>x. x \<notin> set (SpecFiles d)) (SpecFiles s)"
  "Profiles (deepMergeAPIConfig d s) = mergeProfiles (Profiles d) (Profiles s)"
  "TLS (deepMergeAPIConfig d s) =
     (case TLS s of None \<Rightarrow> TLS d | Some st \<Rightarrow> Some (mergeTLS (TLS d) st))"
  by (simp_all add: deepMergeAPIConfig_def Let_def appendNewSpecs_filter split: option.splits)

lemma mergeTLS_fields:
  "InsecureSkipVerify (mergeTLS dt st) =
     (InsecureSkipVerify (case dt of None \<Rightarrow> emptyTLS | Some t \<Rightarrow> t) \<or> InsecureSkipVerify st)"
  "Cert (mergeTLS dt st) =
     (if Cert st \<noteq> [] then Cert st else Cert (case dt of None \<Rightarrow> emptyTLS | Some t \<Rightarrow> t))"
  "Key (mergeTLS dt st) =
     (if Key st \<noteq> [] then Key st else Key (case dt of None \<Rightarrow> emptyTLS | Some t \<Rightarrow> t))"
  "CACert (mergeTLS dt st) =
     (if CACert st \<noteq> [] then CACert st else CACert (case dt of None \<Rightarrow> emptyTLS | Some t \<Rightarrow> t))"
  "PKCS11 (mergeTLS dt st) =
     (case PKCS11 st of
        None \<Rightarrow> PKCS11 (case dt of None \<Rightarrow> emptyTLS | Some t \<Rightarrow> t)
      | Some sp \<Rightarrow> Some (mergePKCS11 (PKCS11 (case dt of None \<Rightarrow> emptyTLS | Some t \<Rightarrow> t)) sp))"
  by (simp_all add: mergeTLS_def Let_def split: option.splits)

lemma mergePKCS11_fields:
  "pk_Path (mergePKCS11 dp sp) =
     (if pk_Path sp \<noteq> [] then pk_Path sp
      else pk_Path (case dp of None \<Rightarrow> emptyPKCS11 | Some p \<Rightarrow> p))"
  "pk_Label (mergePKCS11 dp sp) =
     (if pk_Label sp \<noteq> [] then pk_Label sp
      else pk_Label (case dp of None \<Rightarrow> emptyPKCS11 | Some p \<Rightarrow> p))"
  by (simp_all add: mergePKCS11_def Let_def split: option.splits)


lemma profileOf_merge:
  assumes "distinct (map fst (Profiles s))"
  shows "profileOf (deepMergeAPIConfig d s) n =
           (case lookupProfile (Profiles s) n of
              None \<Rightarrow> profileOf d n
            | Some sp \<Rightarrow> deepMergeProfile (profileOf d n) sp)"
  using mergeProfiles_lookup [OF assms, of "Profiles d" n]
  by (simp add: profileOf_def deepMergeAPIConfig_fields split: option.splits)

lemma profileOf_merge_fields:
  assumes "distinct (map fst (Profiles s))"
  shows "prof_Base (profileOf (deepMergeAPIConfig d s) n) =
           (if prof_Base (profileOf s n) \<noteq> [] then prof_Base (profileOf s n)
            else prof_Base (profileOf d n))"
    and "Headers (profileOf (deepMergeAPIConfig d s) n) =
           Headers (profileOf d n) ++ Headers (profileOf s n)"
    and "Query (profileOf (deepMergeAPIConfig d s) n) =
           Query (profileOf d n) ++ Query (profileOf s n)"
    and "auth_Params (authOf (profileOf (deepMergeAPIConfig d s) n)) =
           auth_Params (authOf (profileOf d n)) ++ auth_Params (authOf (profileOf s n))"
proof -
  note m = profileOf_merge [OF assms, of d n]
  show "prof_Base (profileOf (deepMergeAPIConfig d s) n) =
           (if prof_Base (profileOf s n) \<noteq> [] then prof_Base (profileOf s n)
            else prof_Base (profileOf d n))"
    unfolding m
    by (cases "lookupProfile (Profiles s) n")
       (simp_all add: profileOf_def [of s] emptyProfile_def deepMergeProfile_fields)
  show "Headers (profileOf (deepMergeAPIConfig d s) n) =
           Headers (profileOf d n) ++ Headers (profileOf s n)"
    unfolding m
    by (cases "lookupProfile (Profiles s) n")
       (simp_all add: profileOf_def [of s] emptyProfile_def deepMergeProfile_fields)
  show "Query (profileOf (deepMergeAPIConfig d s) n) =
           Query (profileOf d n) ++ Query (profileOf s n)"
    unfolding m
    by (cases "lookupProfile (Profiles s) n")
       (simp_all add: profileOf_def [of s] emptyProfile_def deepMergeProfile_fields)
  show "auth_Params (authOf (profileOf (deepMergeAPIConfig d s) n)) =
           auth_Params (authOf (profileOf d n)) ++ auth_Params (authOf (profileOf s n))"
    unfolding m
    by (cases "lookupProfile (Profiles s) n"; cases "Auth (profileOf s n)")
       (simp_all add: profileOf_def [of s] emptyProfile_def deepMergeProfile_fields
          authOf_def emptyAuth_def mergeAuth_def Let_def split: option.splits)
qed

lemma tlsOf_merge_fields:
  "Cert (tlsOf (deepMergeAPIConfig d s)) =
     (if Cert (tlsOf s) \<noteq> [] then Cert (tlsOf s) else Cert (tlsOf d))"
  "Key (tlsOf (deepMergeAPIConfig d s)) =
     (if Key (tlsOf s) \<noteq> [] then Key (tlsOf s) else Key (tlsOf d))"
  "CACert (tlsOf (deepMergeAPIConfig d s)) =
     (if CACert (tlsOf s) \<noteq> [] then CACert (tlsOf s) else CACert (tlsOf d))"
  "pk_Path (pkcs11Of (tlsOf (deepMergeAPIConfig d s))) =
     (if pk_Path (pkcs11Of (tlsOf s)) \<noteq> [] then pk_Path (pkcs11Of (tlsOf s))
      else pk_Path (pkcs11Of (tlsOf d)))"
  "pk_Label (pkcs11Of (tlsOf (deepMergeAPIConfig d s))) =
     (if pk_Label (pkcs11Of (tlsOf s)) \<noteq> [] then pk_Label (pkcs11Of (tlsOf s))
      else pk_Label (pkcs11Of (tlsOf d)))"
  by (simp_all add: tlsOf_def pkcs11Of_def deepMergeAPIConfig_fields mergeTLS_fields
        mergePKCS11_fields emptyTLS_def emptyPKCS11_def split: option.splits)

lemma mergeLocalEntry_lookup:
  "map_of (mergeLocalEntry configs k lc) k' =
     (if k' = k
      then (case map_of configs k of
              None \<Rightarrow> Some (lc\<lparr>name := k\<rparr>)
            | Some e \<Rightarrow> Some ((deepMergeAPIConfig e (lc\<lparr>name := k\<rparr>))\<lparr>name := k\<rparr>))
      else map_of configs k')"
  by (simp add: mergeLocalEntry_def update_conv' split: option.splits)

text \<open>
  Claim C1.  Deep-merging a later-layer \<open>source\<close> into an earlier \<open>dest\<close>: every
  non-empty scalar of the later layer (base, operation base, TLS cert, key and CA
  cert, PKCS11 path and label) replaces the earlier value and an empty one leaves it;
  the spec files are the earlier list followed by the later list's entries that are
  not in the earlier list, in the later list's order; the header, query and
  auth-parameter maps of every profile are merged key by key, the later layer
  winning, and a profile is in the result exactly when it is in one of the layers;
  and \<open>loadLocalConfig\<close> stores an API that has no earlier entry as it is, and the
  deep merge of the two otherwise.  A field behind a nil pointer reads as its zero
  value (\<open>tlsOf\<close>, \<open>pkcs11Of\<close>, \<open>profileOf\<close>, \<open>authOf\<close>).
\<close>

theorem deepMergeAPIConfig_semantics:
  assumes "distinct (map fst (Profiles source))"
  shows "let r = deepMergeAPIConfig dest source in
     Base r = (if Base source \<noteq> [] then Base source else Base dest)
   \<and> OperationBase r =
       (if OperationBase source \<noteq> [] then OperationBase source else OperationBase dest)
   \<and> Cert (tlsOf r) = (if Cert (tlsOf source) \<noteq> [] then Cert (tlsOf source) else Cert (tlsOf dest))
   \<and> Key (tlsOf r) = (if Key (tlsOf source) \<noteq> [] then Key (tlsOf source) else Key (tlsOf dest))
   \<and> CACert (tlsOf r) =
       (if CACert (tlsOf source) \<noteq> [] then CACert (tlsOf source) else CACert (tlsOf dest))
   \<and> pk_Path (pkcs11Of (tlsOf r)) =
       (if pk_Path (pkcs11Of (tlsOf source)) \<noteq> [] then pk_Path (pkcs11Of (tlsOf source))
        else pk_Path (pkcs11Of (tlsOf dest)))
   \<and> pk_Label (pkcs11Of (tlsOf r)) =
       (if pk_Label (pkcs11Of (tlsOf source)) \<noteq> [] then pk_Label (pkcs11Of (tlsOf source))
        else pk_Label (pkcs11Of (tlsOf dest)))
   \<and> SpecFiles r = SpecFiles dest @ filter (\<lambda>x. x \<notin> set (SpecFiles dest)) (SpecFiles source)
   \<and> (lookupProfile (Profiles r) n \<noteq> None \<longleftrightarrow>
        lookupProfile (Profiles dest) n \<noteq> None \<or> lookupProfile (Profiles source) n \<noteq> None)
   \<and> prof_Base (profileOf r n) =
       (if prof_Base (profileOf source n) \<noteq> [] then prof_Base (profileOf source n)
        else prof_Base (profileOf dest n))
   \<and> Headers (profileOf r n) k =
       (case Headers (profileOf source n) k of
          Some v \<Rightarrow> Some v | None \<Rightarrow> Headers (profileOf dest n) k)
   \<and> Query (profileOf r n) k =
       (case Query (profileOf source n) k of
          Some v \<Rightarrow> Some v | None \<Rightarrow> Query (profileOf dest n) k)
   \<and> auth_Params (authOf (profileOf r n)) k =
       (case auth_Params (authOf (profileOf source n)) k of
          Some v \<Rightarrow> Some v | None \<Rightarrow> auth_Params (authOf (profileOf dest n)) k)
   \<and> map_of (mergeLocalEntry configs key source) key =
       (case map_of configs key of
          None \<Rightarrow> Some (source\<lparr>name := key\<rparr>)
        | Some e \<Rightarrow> Some ((deepMergeAPIConfig e (source\<lparr>name := key\<rparr>))\<lparr>name := key\<rparr>))"
proof -
  have p: "lookupProfile (Profiles (deepMergeAPIConfig dest source)) n \<noteq> None \<longleftrightarrow>
        lookupProfile (Profiles dest) n \<noteq> None \<or> lookupProfile (Profiles source) n \<noteq> None"
    using mergeProfiles_lookup [OF assms, of "Profiles dest" n]
    by (simp add: deepMergeAPIConfig_fields split: option.splits)
  note f = profileOf_merge_fields [OF assms, of dest n]
  have h: "Headers (profileOf (deepMergeAPIConfig dest source) n) k =
       (case Headers (profileOf source n) k of
          Some v \<Rightarrow> Some v | None \<Rightarrow> Headers (profileOf dest n) k)"
    unfolding f by (simp add: map_add_def split: option.splits)
  have q: "Query (profileOf (deepMergeAPIConfig dest source) n) k =
       (case Query (profileOf source n) k of
          Some v \<Rightarrow> Some v | None \<Rightarrow> Query (profileOf dest n) k)"
    unfolding f by (simp add: map_add_def split: option.splits)
  have a: "auth_Params (authOf (profileOf (deepMergeAPIConfig dest source) n)) k =
       (case auth_Params (authOf (profileOf source n)) k of
          Some v \<Rightarrow> Some v | None \<Rightarrow> auth_Params (authOf (profileOf dest n)) k)"
    unfolding f by (simp add: map_add_def split: option.splits)
  have m: "map_of (mergeLocalEntry configs key source) key =
       (case map_of configs key of
          None \<Rightarrow> Some (source\<lparr>name := key\<rparr>)
        | Some e \<Rightarrow> Some ((deepMergeAPIConfig e (source\<lparr>name := key\<rparr>))\<lparr>name := key\<rparr>))"
    by (simp add: mergeLocalEntry_lookup)
  show ?thesis
    unfolding Let_def
    using p h q a m f(1)
    by (simp only: deepMergeAPIConfig_fields tlsOf_merge_fields simp_thms)
qed

theorem deepMergeAPIConfig_semantics_witness:
  "distinct (map fst (Profiles exLocalFoo))
   \<and> Base (deepMergeAPIConfig exGlobalFoo exLocalFoo) = ''https://local.example.com''
   \<and> SpecFiles (deepMergeAPIConfig exGlobalFoo exLocalFoo) = [''a.yaml'', ''b.yaml'', ''c.yaml'']
   \<and> Headers (profileOf (deepMergeAPIConfig exGlobalFoo exLocalFoo) ''default'') ''a'' = Some ''1''
   \<and> Headers (profileOf (deepMergeAPIConfig exGlobalFoo exLocalFoo) ''default'') ''b'' = Some ''2''
   \<and> Cert (tlsOf (deepMergeAPIConfig exGlobalFoo exLocalFoo)) = ''g.pem''
   \<and> Key (tlsOf (deepMergeAPIConfig exGlobalFoo exLocalFoo)) = ''l.key''
   \<and> map_of (mergeLocalEntry [] ''foo'' exLocalFoo) ''foo'' = Some exLocalFoo"
proof -
  have d: "distinct (map fst (Profiles exLocalFoo))"
    by (simp add: exLocalFoo_def)
  have pl: "profileOf exLocalFoo ''default'' =
      \<lparr>prof_Base = [], Headers = [''b'' \<mapsto> ''2''], Query = Map.empty, Auth = None\<rparr>"
    by (simp add: profileOf_def lookupProfile_def exLocalFoo_def)
  have pg: "profileOf exGlobalFoo ''default'' =
      \<lparr>prof_Base = [], Headers = [''a'' \<mapsto> ''1''], Query = Map.empty, Auth = None\<rparr>"
    by (simp add: profileOf_def lookupProfile_def exGlobalFoo_def)
  have tl: "tlsOf exLocalFoo = \<lparr>InsecureSkipVerify = False, Cert = [], Key = ''l.key'',
      CACert = [], PKCS11 = None\<rparr>"
    by (simp add: tlsOf_def exLocalFoo_def)
  have tg: "tlsOf exGlobalFoo = \<lparr>InsecureSkipVerify = True, Cert = ''g.pem'', Key = [],
      CACert = [], PKCS11 = None\<rparr>"
    by (simp add: tlsOf_def exGlobalFoo_def)
  have fs: "Base exLocalFoo = ''https://local.example.com''"
    "SpecFiles exLocalFoo = [''b.yaml'', ''c.yaml'']"
    "SpecFiles exGlobalFoo = [''a.yaml'', ''b.yaml'']" "name exLocalFoo = ''foo''"
    by (simp_all add: exLocalFoo_def exGlobalFoo_def)
  have nm: "exLocalFoo\<lparr>name := ''foo''\<rparr> = exLocalFoo"
    by (simp add: exLocalFoo_def)
  note t = deepMergeAPIConfig_semantics [OF d, where dest = exGlobalFoo and n = "''default''"
      and configs = "[]" and key = "''foo''"]
  show ?thesis
    using d t [where k = "''a''"] t [where k = "''b''"]
    by (simp add: Let_def pl pg tl tg fs nm)
qed

text \<open>
  Claim C10.  After the merge the destination skips TLS verification exactly when it
  did before or the source does: a later layer cannot switch the flag back off.  A
  config without a TLS block does not skip verification.
\<close>

theorem deepMergeAPIConfig_insecure_monotone:
  "insecure (deepMergeAPIConfig dest source) = (insecure dest \<or> insecure source)"
  by (simp add: insecure_def deepMergeAPIConfig_fields mergeTLS_fields emptyTLS_def
      split: option.splits)

theorem deepMergeAPIConfig_insecure_monotone_witness:
  "insecure exGlobalFoo \<and> \<not> insecure exLocalFoo
   \<and> insecure (deepMergeAPIConfig exGlobalFoo exLocalFoo)"
proof -
  have g: "insecure exGlobalFoo" by (simp add: insecure_def exGlobalFoo_def)
  have l: "\<not> insecure exLocalFoo" by (simp add: insecure_def exLocalFoo_def)
  show ?thesis
    using g l deepMergeAPIConfig_insecure_monotone [of exGlobalFoo exLocalFoo] by simp
qed

section \<open>Profile validation\<close>

lemma sublist_prepend:
  "sublist q ys \<Longrightarrow> sublist q (ps @ ys)"
proof -
  assume "sublist q ys"
  then obtain a b where "ys = a @ q @ b" by (auto simp: sublist_def)
  then have "ps @ ys = (ps @ a) @ q @ b" by simp
  then show ?thesis unfolding sublist_def by blast
qed

lemma sublist_Join:
  "q \<in> set xs \<Longrightarrow> sublist q (Join xs sep)"
proof (induction xs sep rule: Join.induct)
  case (1 sep)
  then show ?case by simp
next
  case (2 x sep)
  then show ?case by simp
next
  case (3 x y ys sep)
  show ?case
  proof (cases "q = x")
    case True
    then show ?thesis by (simp add: sublist_append_rightI)
  next
    case False
    with "3.prems" have "q \<in> set (y # ys)" by simp
    then have "sublist q (Join (y # ys) sep)" by (rule "3.IH")
    then have "sublist q ((x @ sep) @ Join (y # ys) sep)" by (rule sublist_prepend)
    then show ?thesis by simp
  qed
qed

lemma validateProfile_None_iff:
  "validateProfile p c n = None \<longleftrightarrow> (lookupProfile (Profiles c) p \<noteq> None \<or> p = ''default'')"
  by (auto simp: validateProfile_def Let_def)

lemma validateProfile_message:
  assumes "validateProfile p c n = Some msg"
  shows "msg = ''profile '' @ quoted p @ '' not found for API '' @ quoted n @
           (if Profiles c = [] then '' (no profiles defined)''
            else ''. Available profiles: '' @ Join (sort (map fst (Profiles c))) '', '')"
proof -
  have e: "(length (sort (map fst (Profiles c))) = 0) = (Profiles c = [])" by simp
  from assms show ?thesis
    unfolding validateProfile_def Let_def e
    by (simp only: split: if_splits) simp_all
qed

text \<open>
  Claim C7.  \<open>validateProfile\<close> returns no error exactly when the API has the
  requested profile (the lookup in the profile map is not nil) or the requested name
  is \<open>default\<close>.  In every other case the error's message names the requested
  profile and the API and then lists the keys of the API's profile map, each once,
  in sorted order, or says that no profiles are defined when the map is empty; so
  every declared profile name occurs in the message.
\<close>

theorem validateProfile_correct:
  "(validateProfile p c n = None \<longleftrightarrow>
      (lookupProfile (Profiles c) p \<noteq> None \<or> p = ''default''))
   \<and> (\<forall>msg. validateProfile p c n = Some msg \<longrightarrow>
        (\<exists>available. sorted available \<and> mset available = mset (map fst (Profiles c))
           \<and> msg = ''profile '' @ quoted p @ '' not found for API '' @ quoted n @
                (if available = [] then '' (no profiles defined)''
                 else ''. Available profiles: '' @ Join available '', ''))
        \<and> (\<forall>q \<in> fst ` set (Profiles c). sublist q msg))"
proof (intro conjI allI impI)
  show "validateProfile p c n = None \<longleftrightarrow>
      (lookupProfile (Profiles c) p \<noteq> None \<or> p = ''default'')"
    by (rule validateProfile_None_iff)
next
  fix msg
  assume a: "validateProfile p c n = Some msg"
  let ?av = "sort (map fst (Profiles c))"
  have e: "(?av = []) = (Profiles c = [])"
  proof -
    have "length ?av = length (Profiles c)" by simp
    then show ?thesis by (metis length_0_conv)
  qed
  show "\<exists>available. sorted available \<and> mset available = mset (map fst (Profiles c))
           \<and> msg = ''profile '' @ quoted p @ '' not found for API '' @ quoted n @
                (if available = [] then '' (no profiles defined)''
                 else ''. Available profiles: '' @ Join available '', '')"
  proof (intro exI conjI)
    show "sorted ?av" by simp
    show "mset ?av = mset (map fst (Profiles c))" by simp
    show "msg = ''profile '' @ quoted p @ '' not found for API '' @ quoted n @
                (if ?av = [] then '' (no profiles defined)''
                 else ''. Available profiles: '' @ Join ?av '', '')"
      unfolding e by (rule validateProfile_message [OF a])
  qed
next
  fix msg
  assume a: "validateProfile p c n = Some msg"
  show "\<forall>q \<in> fst ` set (Profiles c). sublist q msg"
  proof
    fix q
    assume q: "q \<in> fst ` set (Profiles c)"
    then have ne: "(Profiles c = []) = False" by auto
    from q have "q \<in> set (sort (map fst (Profiles c)))" by simp
    then have s: "sublist q (Join (sort (map fst (Profiles c))) '', '')"
      by (rule sublist_Join)
    have m: "msg = ''profile '' @ quoted p @ '' not found for API '' @ quoted n @
           ''. Available profiles: '' @ Join (sort (map fst (Profiles c))) '', ''"
      using validateProfile_message [OF a] unfolding ne if_False .
    show "sublist q msg"
      unfolding m by (intro sublist_prepend) (rule s)
  qed
qed

theorem validateProfile_correct_witness:
  "validateProfile ''staging'' exProdOnly ''foo'' =
     Some (''profile '' @ quoted ''staging'' @ '' not found for API '' @ quoted ''foo'' @
           ''. Available profiles: prod'')
   \<and> sublist ''prod'' (''profile '' @ quoted ''staging'' @ '' not found for API '' @
        quoted ''foo'' @ ''. Available profiles: prod'')
   \<and> validateProfile ''prod'' exProdOnly ''foo'' = None
   \<and> validateProfile ''default'' exProdOnly ''foo'' = None"
proof -
  have v: "validateProfile ''staging'' exProdOnly ''foo'' =
     Some (''profile '' @ quoted ''staging'' @ '' not found for API '' @ quoted ''foo'' @
           ''. Available profiles: prod'')"
    by (simp add: validateProfile_def exProdOnly_def lookupProfile_def)
  have k: "''prod'' \<in> fst ` set (Profiles exProdOnly)"
    by (simp add: exProdOnly_def)
  have l: "lookupProfile (Profiles exProdOnly) ''prod'' \<noteq> None"
    by (simp add: exProdOnly_def lookupProfile_def)
  note t = validateProfile_correct [of _ exProdOnly "''foo''"]
  note s = t [of "''staging''", THEN conjunct2, rule_format, OF v, THEN conjunct2,
      rule_format, OF k]
  have p: "validateProfile ''prod'' exProdOnly ''foo'' = None"
    using t [of "''prod''", THEN conjunct1] l by simp
  have d: "validateProfile ''default'' exProdOnly ''foo'' = None"
    using t [of "''default''", THEN conjunct1] by simp
  show ?thesis
    by (rule conjI [OF v conjI [OF s conjI [OF p d]]])
qed
section \<open>API lookup\<close>

lemma findAPI_step:
  "findAPI apiName profile ((nm, config) # rest) uri =
     (if candidate apiName profile uri (nm, config) then Some (nm, config)
      else findAPI apiName profile rest uri)"
  by (simp add: candidate_def effectiveBase_def split: option.splits)

lemma findAPI_find:
  "findAPI apiName profile configs uri = find (candidate apiName profile uri) configs"
proof (induction configs)
  case Nil
  then show ?case by simp
next
  case (Cons e configs)
  obtain nm config where e: "e = (nm, config)" by (cases e)
  show ?case
    unfolding e findAPI_step Cons.IH by simp
qed

text \<open>
  Claim C2, as the code has it.  \<open>findAPI\<close> visits the registry in the order in
  which the loop over the map yields its entries and returns the first candidate:
  an entry whose name passes the API-name filter (when the filter is set) and whose
  effective base is a prefix of the request URI.  Under the profile \<open>default\<close> the
  effective base is the API's own base; under any other profile an API that does not
  have the profile is no candidate, and the effective base is the profile's base when
  that is not empty, else the API's own base.  Nothing prefers a longer base.  So,
  with no filter and the default profile, a URI that some registered base is a prefix
  of is always found.
\<close>

theorem findAPI_first_candidate:
  "findAPI apiName profile configs uri = find (candidate apiName profile uri) configs
   \<and> (findAPI apiName profile configs uri = Some e \<longleftrightarrow>
        (\<exists>i < length configs. configs ! i = e \<and> candidate apiName profile uri e
           \<and> (\<forall>j < i. \<not> candidate apiName profile uri (configs ! j))))
   \<and> ((\<exists>c \<in> set configs. HasPrefix uri (Base (snd c))) \<longrightarrow>
        (\<exists>c \<in> set configs. findAPI [] ''default'' configs uri = Some c
            \<and> HasPrefix uri (Base (snd c))))"
proof (intro conjI)
  show f: "findAPI apiName profile configs uri = find (candidate apiName profile uri) configs"
    by (rule findAPI_find)
  show "findAPI apiName profile configs uri = Some e \<longleftrightarrow>
        (\<exists>i < length configs. configs ! i = e \<and> candidate apiName profile uri e
           \<and> (\<forall>j < i. \<not> candidate apiName profile uri (configs ! j)))"
    unfolding f find_Some_iff by blast
  show "(\<exists>c \<in> set configs. HasPrefix uri (Base (snd c))) \<longrightarrow>
        (\<exists>c \<in> set configs. findAPI [] ''default'' configs uri = Some c
            \<and> HasPrefix uri (Base (snd c)))"
  proof
    assume "\<exists>c \<in> set configs. HasPrefix uri (Base (snd c))"
    then have "\<exists>c \<in> set configs. candidate [] ''default'' uri c"
      by (simp add: candidate_def effectiveBase_def)
    then obtain c where c: "find (candidate [] ''default'' uri) configs = Some c"
      by (metis find_None_iff not_Some_eq)
    then have "c \<in> set configs" and "candidate [] ''default'' uri c"
      by (auto simp: find_Some_iff)
    then show "\<exists>c \<in> set configs. findAPI [] ''default'' configs uri = Some c
            \<and> HasPrefix uri (Base (snd c))"
      using c by (auto simp: findAPI_find candidate_def effectiveBase_def)
  qed
qed

theorem findAPI_first_candidate_witness:
  "findAPI [] ''default'' [(''a'', exBaseA), (''ab'', exBaseAB)] ''/a/b/x'' = Some (''a'', exBaseA)
   \<and> findAPI [] ''default'' [(''ab'', exBaseAB), (''a'', exBaseA)] ''/a/b/x'' = Some (''ab'', exBaseAB)
   \<and> (\<exists>c \<in> set [(''a'', exBaseA), (''ab'', exBaseAB)]. HasPrefix ''/a/b/x'' (Base (snd c)))
   \<and> (\<exists>c \<in> set [(''a'', exBaseA), (''ab'', exBaseAB)].
         findAPI [] ''default'' [(''a'', exBaseA), (''ab'', exBaseAB)] ''/a/b/x'' = Some c
         \<and> HasPrefix ''/a/b/x'' (Base (snd c)))"
proof -
  have c: "candidate [] ''default'' ''/a/b/x'' (''a'', exBaseA)"
     "candidate [] ''default'' ''/a/b/x'' (''ab'', exBaseAB)"
    by (simp_all add: candidate_def effectiveBase_def HasPrefix_def exBaseA_def exBaseAB_def)
  have h: "\<exists>c \<in> set [(''a'', exBaseA), (''ab'', exBaseAB)]. HasPrefix ''/a/b/x'' (Base (snd c))"
    by (simp add: HasPrefix_def exBaseA_def)
  have 1: "findAPI [] ''default'' [(''a'', exBaseA), (''ab'', exBaseAB)] ''/a/b/x'' = Some (''a'', exBaseA)"
    using findAPI_first_candidate [of "[]" "''default''" "[(''a'', exBaseA), (''ab'', exBaseAB)]"
        "''/a/b/x''", THEN conjunct1] c
    by (simp only: find.simps if_True)
  have 2: "findAPI [] ''default'' [(''ab'', exBaseAB), (''a'', exBaseA)] ''/a/b/x'' = Some (''ab'', exBaseAB)"
    using findAPI_first_candidate [of "[]" "''default''" "[(''ab'', exBaseAB), (''a'', exBaseA)]"
        "''/a/b/x''", THEN conjunct1] c
    by (simp only: find.simps if_True)
  note 3 = findAPI_first_candidate [of "[]" "''default''" "[(''a'', exBaseA), (''ab'', exBaseAB)]"
        "''/a/b/x''", THEN conjunct2, THEN conjunct2, THEN mp, OF h]
  show ?thesis by (rule conjI [OF 1 conjI [OF 2 conjI [OF h 3]]])
qed

text \<open>
  The claim as the specification words it fails: with the profile \<open>default\<close> the
  code compares the URI with the API's own base even when the API's \<open>default\<close>
  profile defines a base, and under another profile it passes over an API that does
  not have that profile instead of using the API's own base.
\<close>

theorem findAPI_effective_base_counterexample:
  "spec_findAPI [] ''default'' [(''foo'', exDefaultProfileBase)] ''/p/x''
     = Some (''foo'', exDefaultProfileBase)
   \<and> findAPI [] ''default'' [(''foo'', exDefaultProfileBase)] ''/p/x'' = None
   \<and> spec_findAPI [] ''staging'' [(''a'', exBaseA)] ''/a/x'' = Some (''a'', exBaseA)
   \<and> findAPI [] ''staging'' [(''a'', exBaseA)] ''/a/x'' = None"
  by (simp add: spec_findAPI_def spec_effectiveBase_def lookupProfile_def HasPrefix_def
      exDefaultProfileBase_def exBaseA_def)

section \<open>Unique base URIs at startup\<close>

lemma registerAPIs_Inr:
  "registerAPIs seen configs = Inr reg \<Longrightarrow>
     reg = map (\<lambda>e. (fst e, (the (snd e))\<lparr>name := fst e\<rparr>)) configs
     \<and> (\<forall>e \<in> set configs. snd e \<noteq> None)
     \<and> distinct (map (\<lambda>e. Base (the (snd e))) configs)
     \<and> (\<forall>e \<in> set configs. Base (the (snd e)) \<notin> seen)"
proof (induction seen configs arbitrary: reg rule: registerAPIs.induct)
  case (1 seen)
  then show ?case by simp
next
  case (2 seen apiName rest)
  then show ?case by simp
next
  case (3 seen apiName config rest)
  from "3.prems" have ns: "Base config \<notin> seen"
    by (simp split: if_splits)
  with "3.prems" obtain registered where
    r: "registerAPIs (insert (Base config) seen) rest = Inr registered"
    and reg: "reg = (apiName, config\<lparr>name := apiName\<rparr>) # registered"
    by (auto split: sum.splits)
  note ih = "3.IH" [OF ns r]
  from ih have 1: "registered = map (\<lambda>e. (fst e, (the (snd e))\<lparr>name := fst e\<rparr>)) rest"
    and 2: "\<forall>e \<in> set rest. snd e \<noteq> None"
    and 3: "distinct (map (\<lambda>e. Base (the (snd e))) rest)"
    and 4: "\<forall>e \<in> set rest. Base (the (snd e)) \<notin> insert (Base config) seen"
    by simp_all
  from 4 have 5: "Base config \<notin> (\<lambda>e. Base (the (snd e))) ` set rest" by auto
  from 4 have 6: "\<forall>e \<in> set rest. Base (the (snd e)) \<notin> seen" by auto
  show ?case
    unfolding reg using 1 2 3 5 6 ns by simp
qed

lemma registerAPIs_Inr_exists:
  "(\<forall>e \<in> set configs. snd e \<noteq> None) \<Longrightarrow>
   distinct (map (\<lambda>e. Base (the (snd e))) configs) \<Longrightarrow>
   (\<forall>e \<in> set configs. Base (the (snd e)) \<notin> seen) \<Longrightarrow>
   \<exists>reg. registerAPIs seen configs = Inr reg"
proof (induction seen configs rule: registerAPIs.induct)
  case (1 seen)
  then show ?case by simp
next
  case (2 seen apiName rest)
  then show ?case by simp
next
  case (3 seen apiName config rest)
  from "3.prems"(3) have ns: "Base config \<notin> seen" by simp
  from "3.prems"(1) have a: "\<forall>e \<in> set rest. snd e \<noteq> None" by simp
  from "3.prems"(2) have b: "distinct (map (\<lambda>e. Base (the (snd e))) rest)"
    and c: "Base config \<notin> (\<lambda>e. Base (the (snd e))) ` set rest" by simp_all
  have d: "\<forall>e \<in> set rest. Base (the (snd e)) \<notin> insert (Base config) seen"
  proof
    fix e
    assume e: "e \<in> set rest"
    with c have "Base (the (snd e)) \<noteq> Base config" by force
    moreover from e "3.prems"(3) have "Base (the (snd e)) \<notin> seen" by simp
    ultimately show "Base (the (snd e)) \<notin> insert (Base config) seen" by simp
  qed
  from "3.IH" [OF ns a b d]
  obtain reg where "registerAPIs (insert (Base config) seen) rest = Inr reg" ..
  with ns show ?case by simp
qed

text \<open>
  Claim C9.  The registry check at the end of \<open>initAPIConfig\<close> starts with nothing
  seen.  When it returns a registry, the registry has the names of the configured
  APIs, every entry carries its name, and no two entries have the same base.  When
  two different API names are configured with the same base, it does not return a
  registry: it panics.  When every entry is there and the bases differ, it returns
  a registry.
\<close>

theorem registerAPIs_unique_base:
  "(\<forall>reg. registerAPIs {} configs = Inr reg \<longrightarrow>
       map fst reg = map fst configs
       \<and> (\<forall>e \<in> set reg. name (snd e) = fst e)
       \<and> distinct (map (\<lambda>e. Base (snd e)) reg))
   \<and> (distinct (map fst configs) \<and> map_of configs n1 = Some (Some c1)
        \<and> map_of configs n2 = Some (Some c2) \<and> n1 \<noteq> n2 \<and> Base c1 = Base c2 \<longrightarrow>
       (\<exists>p. registerAPIs {} configs = Inl p))
   \<and> ((\<forall>e \<in> set configs. snd e \<noteq> None)
        \<and> distinct (map (\<lambda>e. Base (the (snd e))) configs) \<longrightarrow>
       (\<exists>reg. registerAPIs {} configs = Inr reg))"
proof (intro conjI allI impI)
  fix reg
  assume r: "registerAPIs {} configs = Inr reg"
  note i = registerAPIs_Inr [OF r]
  from i have reg: "reg = map (\<lambda>e. (fst e, (the (snd e))\<lparr>name := fst e\<rparr>)) configs"
    and d: "distinct (map (\<lambda>e. Base (the (snd e))) configs)" by simp_all
  show "map fst reg = map fst configs"
    unfolding reg by simp
  show "\<forall>e \<in> set reg. name (snd e) = fst e"
    unfolding reg by simp
  show "distinct (map (\<lambda>e. Base (snd e)) reg)"
    unfolding reg using d by (simp add: comp_def)
next
  assume a: "distinct (map fst configs) \<and> map_of configs n1 = Some (Some c1)
        \<and> map_of configs n2 = Some (Some c2) \<and> n1 \<noteq> n2 \<and> Base c1 = Base c2"
  show "\<exists>p. registerAPIs {} configs = Inl p"
  proof (cases "registerAPIs {} configs")
    case (Inl p)
    then show ?thesis by blast
  next
    case (Inr reg)
    from registerAPIs_Inr [OF Inr]
    have d: "distinct (map (\<lambda>e. Base (the (snd e))) configs)" by simp
    then have inj: "inj_on (\<lambda>e. Base (the (snd e))) (set configs)"
      by (simp add: distinct_map)
    from a have m1: "(n1, Some c1) \<in> set configs" and m2: "(n2, Some c2) \<in> set configs"
      by (auto dest: map_of_SomeD)
    from a have eq: "Base (the (snd (n1, Some c1))) = Base (the (snd (n2, Some c2)))" by simp
    have "(n1, Some c1) = (n2, Some c2)"
      by (rule inj_onD [OF inj eq m1 m2])
    with a have False by simp
    then show ?thesis ..
  qed
next
  assume "(\<forall>e \<in> set configs. snd e \<noteq> None)
        \<and> distinct (map (\<lambda>e. Base (the (snd e))) configs)"
  then show "\<exists>reg. registerAPIs {} configs = Inr reg"
    using registerAPIs_Inr_exists [of configs "{}"] by simp
qed

theorem registerAPIs_unique_base_witness:
  "registerAPIs {} [(''a'', Some exBaseA), (''b'', Some exBaseA)] = Inl (DuplicateBase ''/a'')
   \<and> (\<exists>reg. registerAPIs {} [(''a'', Some exBaseA), (''ab'', Some exBaseAB)] = Inr reg
          \<and> map fst reg = [''a'', ''ab'']
          \<and> (\<forall>e \<in> set reg. name (snd e) = fst e)
          \<and> distinct (map (\<lambda>e. Base (snd e)) reg))"
proof -
  let ?dup = "[(''a'', Some exBaseA), (''b'', Some exBaseA)]"
  let ?ok = "[(''a'', Some exBaseA), (''ab'', Some exBaseAB)]"
  have h: "distinct (map fst ?dup) \<and> map_of ?dup ''a'' = Some (Some exBaseA)
      \<and> map_of ?dup ''b'' = Some (Some exBaseA) \<and> ''a'' \<noteq> ''b'' \<and> Base exBaseA = Base exBaseA"
    by simp
  have g: "(\<forall>e \<in> set ?ok. snd e \<noteq> None) \<and> distinct (map (\<lambda>e. Base (the (snd e))) ?ok)"
    by (simp add: exBaseA_def exBaseAB_def)
  note t = registerAPIs_unique_base
  from t [of ?dup "''a''" exBaseA "''b''" exBaseA, THEN conjunct2, THEN conjunct1, THEN mp, OF h]
  obtain p where p: "registerAPIs {} ?dup = Inl p" ..
  have 1: "registerAPIs {} ?dup = Inl (DuplicateBase ''/a'')"
    using p by (simp add: exBaseA_def)
  from t [of ?ok "''a''" exBaseA "''b''" exBaseA, THEN conjunct2, THEN conjunct2, THEN mp, OF g]
  obtain reg where r: "registerAPIs {} ?ok = Inr reg" ..
  note u = t [of ?ok "''a''" exBaseA "''b''" exBaseA, THEN conjunct1, THEN spec, THEN mp, OF r]
  have "registerAPIs {} ?ok = Inr reg
          \<and> map fst reg = [''a'', ''ab'']
          \<and> (\<forall>e \<in> set reg. name (snd e) = fst e)
          \<and> distinct (map (\<lambda>e. Base (snd e)) reg)"
    using r u by simp
  then have 2: "\<exists>reg. registerAPIs {} ?ok = Inr reg
          \<and> map fst reg = [''a'', ''ab'']
          \<and> (\<forall>e \<in> set reg. name (snd e) = fst e)
          \<and> distinct (map (\<lambda>e. Base (snd e)) reg)"
    by (rule exI)
  show ?thesis by (rule conjI [OF 1 2])
qed

section \<open>Local-config discovery\<close>

lemma walkUp_root:
  "walkUp stat [] acc = acc @ localConfigsAt stat []"
  by (simp add: localConfigsAt_def Dir_def Let_def)

lemma walkUp_snoc:
  "walkUp stat (d @ [x]) acc = walkUp stat d (acc @ localConfigsAt stat (d @ [x]))"
proof -
  have "Dir (d @ [x]) = d" "Dir (d @ [x]) \<noteq> d @ [x]"
    by (simp_all add: Dir_def)
  then show ?thesis
    by (subst walkUp.simps) (simp add: localConfigsAt_def Let_def del: walkUp.simps)
qed

lemma walkUp_prefixes:
  "walkUp stat d acc = acc @ concat (map (localConfigsAt stat) (rev (prefixes d)))"
proof (induction d arbitrary: acc rule: rev_induct)
  case Nil
  then show ?case by (simp add: walkUp_root del: walkUp.simps)
next
  case (snoc x d)
  show ?case
    unfolding walkUp_snoc snoc.IH by simp
qed

lemma rev_localConfigsAt:
  "rev (localConfigsAt stat d) = localConfigsAt stat d"
  by (simp add: localConfigsAt_def)

lemma reverseInPlace_middle:
  "length a = i \<Longrightarrow> j = int i + int (length m) - 1 \<Longrightarrow>
   reverseInPlace i j (a @ m @ b) = a @ rev m @ b"
proof (induction m arbitrary: a b i j rule: length_induct)
  case (1 m)
  show ?case
  proof (cases "length m \<le> 1")
    case True
    then have r: "rev m = m" by (cases m) auto
    from True "1.prems" have "\<not> int i < j" by simp
    then show ?thesis
      by (subst reverseInPlace.simps) (simp add: r del: reverseInPlace.simps)
  next
    case False
    then obtain x m1 where m1: "m = x # m1" and "m1 \<noteq> []" by (cases m) auto
    then obtain m' y where m': "m1 = m' @ [y]" by (metis rev_exhaust)
    have m: "m = x # m' @ [y]" by (simp add: m1 m')
    from "1.prems" m have lt: "int i < j" by simp
    from "1.prems" m have nj: "nat j = length a + Suc (length m')" by simp
    have xi: "(a @ m @ b) ! i = x"
      using "1.prems" m by (simp add: nth_append)
    have xj: "(a @ m @ b) ! nat j = y"
      unfolding nj m by (simp add: nth_append)
    have upd: "(a @ m @ b)[i := y, nat j := x] = (a @ [y]) @ m' @ ([x] @ b)"
      unfolding nj m using "1.prems"(1) by (simp add: list_update_append)
    have "reverseInPlace i j (a @ m @ b) =
            reverseInPlace (i + 1) (j - 1) ((a @ m @ b)[i := y, nat j := x])"
      using lt xi xj by (subst reverseInPlace.simps) (simp del: reverseInPlace.simps)
    also have "\<dots> = (a @ [y]) @ rev m' @ ([x] @ b)"
      unfolding upd
      using "1.prems" m by (intro "1.IH" [rule_format]) simp_all
    also have "\<dots> = a @ rev m @ b" by (simp add: m)
    finally show ?thesis .
  qed
qed

lemma reverseInPlace_rev:
  "reverseInPlace 0 (int (length xs) - 1) xs = rev xs"
  using reverseInPlace_middle [of "[]" 0 "int (length xs) - 1" xs "[]"] by simp

text \<open>
  Claim C8, as the code has it.  When an override path is set and the file exists,
  the result is that one path.  Otherwise (no override, or an override that does not
  exist) discovery walks from the working directory up to the root, takes from each
  directory \<open>.restish.json\<close> if it exists, else \<open>.restish.yaml\<close> if that exists, so
  at most one file per directory, and returns them root first, working directory
  last; it returns nothing when the working directory cannot be read.
\<close>

theorem findAllLocalConfigs_discovery:
  "(rshConfig \<noteq> [] \<and> stat rshConfig \<longrightarrow>
      findAllLocalConfigs rshConfig stat getwd = [rshConfig])
   \<and> (\<not> (rshConfig \<noteq> [] \<and> stat rshConfig) \<longrightarrow>
      findAllLocalConfigs rshConfig stat (Some cwd) =
        concat (map (localConfigsAt stat) (prefixes cwd))
      \<and> findAllLocalConfigs rshConfig stat None = [])
   \<and> length (localConfigsAt stat d) \<le> 1
   \<and> (stat (JoinPath d ''.restish.json'') \<longrightarrow>
        localConfigsAt stat d = [JoinPath d ''.restish.json''])
   \<and> (\<not> stat (JoinPath d ''.restish.json'') \<and> stat (JoinPath d ''.restish.yaml'') \<longrightarrow>
        localConfigsAt stat d = [JoinPath d ''.restish.yaml''])"
proof -
  have "rev (walkUp stat cwd []) = concat (map (localConfigsAt stat) (prefixes cwd))"
    unfolding walkUp_prefixes by (simp add: rev_concat rev_map comp_def rev_localConfigsAt)
  then show ?thesis
    by (simp add: findAllLocalConfigs_def Let_def reverseInPlace_rev localConfigsAt_def
        del: reverseInPlace.simps walkUp.simps)
qed


theorem findAllLocalConfigs_discovery_witness:
  "findAllLocalConfigs [] exStatTree (Some [''home'', ''proj''])
     = [''/.restish.yaml'', ''/home/proj/.restish.json'']
   \<and> findAllLocalConfigs ''my.json'' exStatOverride (Some [''home'']) = [''my.json'']
   \<and> localConfigsAt exStatTree [''home'', ''proj''] = [''/home/proj/.restish.json'']
   \<and> localConfigsAt exStatTree [] = [''/.restish.yaml'']"
proof -
  have h: "\<not> ([] \<noteq> ([]::string) \<and> exStatTree [])" by simp
  have g: "''my.json'' \<noteq> [] \<and> exStatOverride ''my.json''" by (simp add: exStatOverride_def)
  have sj: "exStatTree (JoinPath [''home'', ''proj''] ''.restish.json'')"
    by (simp add: exStatTree_def JoinPath_def)
  have sy: "\<not> exStatTree (JoinPath [] ''.restish.json'') \<and> exStatTree (JoinPath [] ''.restish.yaml'')"
    by (simp add: exStatTree_def JoinPath_def)
  note t = findAllLocalConfigs_discovery [where stat = exStatTree]
  from t [where d = "[''home'', ''proj'']", THEN conjunct2, THEN conjunct2, THEN conjunct2,
      THEN conjunct1, THEN mp, OF sj]
  have 3: "localConfigsAt exStatTree [''home'', ''proj''] = [''/home/proj/.restish.json'']"
    by (simp add: JoinPath_def)
  from t [where d = "[]", THEN conjunct2, THEN conjunct2, THEN conjunct2,
      THEN conjunct2, THEN mp, OF sy]
  have 4: "localConfigsAt exStatTree [] = [''/.restish.yaml'']"
    by (simp add: JoinPath_def)
  have 5: "localConfigsAt exStatTree [''home''] = []"
    by (simp add: localConfigsAt_def exStatTree_def JoinPath_def)
  have c: "concat (map (localConfigsAt exStatTree) (prefixes [''home'', ''proj'']))
      = [''/.restish.yaml'', ''/home/proj/.restish.json'']"
    by (simp add: 3 4 5)
  from t [where rshConfig = "[]" and cwd = "[''home'', ''proj'']",
      THEN conjunct2, THEN conjunct1, THEN mp, OF h, THEN conjunct1]
  have 1: "findAllLocalConfigs [] exStatTree (Some [''home'', ''proj''])
     = [''/.restish.yaml'', ''/home/proj/.restish.json'']"
    unfolding c .
  from findAllLocalConfigs_discovery [where rshConfig = "''my.json''" and stat = exStatOverride
      and getwd = "Some [''home'']", THEN conjunct1, THEN mp, OF g]
  have 2: "findAllLocalConfigs ''my.json'' exStatOverride (Some [''home'']) = [''my.json'']" .
  show ?thesis by (rule conjI [OF 1 conjI [OF 2 conjI [OF 3 4]]])
qed

text \<open>
  The claim as the specification words it fails: an override path that is set but
  does not exist does not replace the walk.
\<close>

theorem findAllLocalConfigs_override_counterexample:
  "findAllLocalConfigs ''missing.json'' exStatProj (Some [''proj'']) = [''/proj/.restish.json'']
   \<and> findAllLocalConfigs ''missing.json'' exStatProj (Some [''proj'']) \<noteq> [''missing.json'']"
proof -
  have w: "walkUp exStatProj [''proj''] [] = [''/proj/.restish.json'']"
    by (simp add: Dir_def JoinPath_def Let_def exStatProj_def)
  have r: "reverseInPlace 0 0 [''/proj/.restish.json''] = [''/proj/.restish.json'']"
    by simp
  show ?thesis
    by (simp add: findAllLocalConfigs_def w r exStatProj_def del: walkUp.simps reverseInPlace.simps)
qed
section \<open>Operation naming\<close>

text \<open>
  Claim C6, as the code has it.  The operation's name is the name-override extension
  when that decodes to a non-empty string, else the dash-cased operation identifier
  when that is not empty, else the dash-cased \<open>method-path\<close> with the path's outer
  slashes trimmed.  The legacy slug of the identifier is appended to the declared
  aliases exactly when there is no override and the slug is non-empty and differs
  from the name; with an override no legacy alias is added.
\<close>

theorem operationNaming_precedence:
  "fst (operationNaming Kebab slugMake decodeString decodeStrings exts opId method path) =
     (if getExtOr decodeString exts ExtName [] \<noteq> [] then getExtOr decodeString exts ExtName []
      else if Kebab opId \<noteq> [] then Kebab opId
      else Kebab (method @ ''-'' @ Trim path ''/''))
   \<and> snd (operationNaming Kebab slugMake decodeString decodeStrings exts opId method path) =
     getExtSlice decodeStrings exts ExtAliases [] @
     (if getExtOr decodeString exts ExtName [] = [] \<and> slugMake opId \<noteq> []
         \<and> slugMake opId \<noteq>
             fst (operationNaming Kebab slugMake decodeString decodeStrings exts opId method path)
      then [slugMake opId] else [])
   \<and> (exts ExtName = None \<and> Kebab ''getWidget'' = ''get-widget'' \<longrightarrow>
        fst (operationNaming Kebab slugMake decodeString decodeStrings exts ''getWidget'' method path)
          = ''get-widget'')
   \<and> (exts ExtName = None \<and> Kebab [] = [] \<and> Kebab ''GET-widgets/{id}'' = ''get-widgets-id'' \<longrightarrow>
        fst (operationNaming Kebab slugMake decodeString decodeStrings exts [] ''GET''
               ''/widgets/{id}'') = ''get-widgets-id'')"
proof -
  let ?ov = "getExtOr decodeString exts ExtName []"
  have n: "\<And>opId method path.
      fst (operationNaming Kebab slugMake decodeString decodeStrings exts opId method path) =
        (if ?ov \<noteq> [] then ?ov
         else if Kebab opId \<noteq> [] then Kebab opId
         else Kebab (method @ ''-'' @ Trim path ''/''))"
    by (simp add: operationNaming_def Let_def)
  have a: "snd (operationNaming Kebab slugMake decodeString decodeStrings exts opId method path) =
     getExtSlice decodeStrings exts ExtAliases [] @
     (if ?ov = [] \<and> slugMake opId \<noteq> []
         \<and> slugMake opId \<noteq>
             fst (operationNaming Kebab slugMake decodeString decodeStrings exts opId method path)
      then [slugMake opId] else [])"
    unfolding n by (simp add: operationNaming_def Let_def)
  have t: "Trim ''/widgets/{id}'' ''/'' = ''widgets/{id}''"
    by (simp add: Trim_def)
  have o: "exts ExtName = None \<Longrightarrow> ?ov = []"
    by (simp add: getExtOr_def getExt_def)
  have e1: "exts ExtName = None \<and> Kebab ''getWidget'' = ''get-widget'' \<longrightarrow>
        fst (operationNaming Kebab slugMake decodeString decodeStrings exts ''getWidget'' method path)
          = ''get-widget''"
    unfolding n using o by simp
  have e2: "exts ExtName = None \<and> Kebab [] = [] \<and> Kebab ''GET-widgets/{id}'' = ''get-widgets-id'' \<longrightarrow>
        fst (operationNaming Kebab slugMake decodeString decodeStrings exts [] ''GET''
               ''/widgets/{id}'') = ''get-widgets-id''"
    unfolding n t using o by simp
  show ?thesis
    by (rule conjI [OF n conjI [OF a conjI [OF e1 e2]]])
qed

theorem operationNaming_precedence_witness:
  "fst (operationNaming exKebab exSlug Some exNoStrings Map.empty ''getWidget'' ''GET'' ''/widgets'')
      = ''get-widget''
   \<and> snd (operationNaming exKebab exSlug Some exNoStrings Map.empty ''getWidget'' ''GET'' ''/widgets'')
      = [''getwidget'']
   \<and> fst (operationNaming exKebab exSlug Some exNoStrings Map.empty [] ''GET'' ''/widgets/{id}'')
      = ''get-widgets-id''"
proof -
  note t = operationNaming_precedence [of exKebab exSlug Some exNoStrings Map.empty]
  have k: "Map.empty ExtName = None \<and> exKebab ''getWidget'' = ''get-widget''"
    by (simp add: exKebab_def)
  have k2: "Map.empty ExtName = None \<and> exKebab [] = [] \<and> exKebab ''GET-widgets/{id}'' = ''get-widgets-id''"
    by (simp add: exKebab_def)
  note 1 = t [of _ "''GET''" "''/widgets''", THEN conjunct2, THEN conjunct2, THEN conjunct1,
      rule_format, OF k]
  note 3 = t [of "[]" "''GET''" "''/widgets/{id}''", THEN conjunct2, THEN conjunct2, THEN conjunct2,
      rule_format, OF k2]
  have 2: "snd (operationNaming exKebab exSlug Some exNoStrings Map.empty ''getWidget'' ''GET'' ''/widgets'')
      = [''getwidget'']"
    using t [of "''getWidget''" "''GET''" "''/widgets''", THEN conjunct2, THEN conjunct1]
    unfolding 1
    by (simp add: getExtOr_def getExt_def getExtSlice_def exSlug_def)
  show ?thesis by (rule conjI [OF 1 conjI [OF 2 3]])
qed

text \<open>
  The claim as the specification words it fails: with a name override the legacy
  slug differs from the chosen name and is not empty, yet it is not an alias.
\<close>

theorem operationNaming_override_counterexample:
  "operationNaming exKebab exSlug Some exNoStrings [ExtName \<mapsto> ''widget''] ''getWidget'' ''GET'' ''/widgets''
     = (''widget'', [])
   \<and> spec_aliases [] (exSlug ''getWidget'') ''widget'' = [''getwidget'']"
  by (simp add: operationNaming_def getExtOr_def getExt_def getExtSlice_def Let_def
      ExtName_def ExtAliases_def exSlug_def spec_aliases_def)
section \<open>Parameter merge\<close>

lemma addOperationParams_eq:
  "addOperationParams ps (acc, seen) = (acc @ ps, seen \<union> parameter_Name ` set ps)"
  by (induction ps arbitrary: acc seen) auto

lemma addPathParams_eq:
  "addPathParams ps seen acc = acc @ filter (\<lambda>p. parameter_Name p \<notin> seen) ps"
  by (induction ps arbitrary: acc) auto

lemma combineParams_eq:
  "combineParams opPs pathPs =
     opPs @ filter (\<lambda>p. parameter_Name p \<notin> parameter_Name ` set opPs) pathPs"
  by (simp add: combineParams_def addOperationParams_eq addPathParams_eq)

lemma paramsIn_append:
  "paramsIn place (xs @ ys) = paramsIn place xs @ paramsIn place ys"
  by (simp add: paramsIn_def)

lemma paramsIn_Cons:
  "paramsIn place (c # cs) = paramsIn place [c] @ paramsIn place cs"
  by (simp add: paramsIn_def)

lemma compiledParams_Cons:
  "compiledParams dB dS dY (p # ps) =
     (case compileParam dB dS dY p of
        Inr (Some (param, schema)) \<Rightarrow> [(parameter_In p, param, schema)]
      | _ \<Rightarrow> []) @ compiledParams dB dS dY ps"
  by (simp add: compiledParams_def map_filter_simps split: sum.splits option.splits)

lemma paramsIn_addParam:
  "pathParams (addParam place param schema l) = pathParams l @ paramsIn ''path'' [(place, param, schema)]"
  "queryParams (addParam place param schema l) = queryParams l @ paramsIn ''query'' [(place, param, schema)]"
  "headerParams (addParam place param schema l) = headerParams l @ paramsIn ''header'' [(place, param, schema)]"
  by (simp_all add: addParam_def paramsIn_def)

lemma collectParams_lists:
  "collectParams dB dS dY ps acc = Inr r \<Longrightarrow>
     pathParams r = pathParams acc @ paramsIn ''path'' (compiledParams dB dS dY ps)
     \<and> queryParams r = queryParams acc @ paramsIn ''query'' (compiledParams dB dS dY ps)
     \<and> headerParams r = headerParams acc @ paramsIn ''header'' (compiledParams dB dS dY ps)"
proof (induction ps arbitrary: acc)
  case Nil
  then show ?case by (simp add: compiledParams_def paramsIn_def map_filter_simps)
next
  case (Cons p ps)
  show ?case
  proof (cases "compileParam dB dS dY p")
    case (Inl f)
    with Cons.prems show ?thesis by simp
  next
    case (Inr c)
    show ?thesis
    proof (cases c)
      case None
      with Inr Cons.prems have "collectParams dB dS dY ps acc = Inr r" by simp
      from Cons.IH [OF this] show ?thesis
        by (simp add: compiledParams_Cons Inr None)
    next
      case (Some ps')
      obtain param schema where ps': "ps' = (param, schema)" by (cases ps')
      with Inr Some Cons.prems
      have c: "collectParams dB dS dY ps (addParam (parameter_In p) param schema acc) = Inr r"
        by simp
      have e: "\<And>place. paramsIn place ((parameter_In p, param, schema) # compiledParams dB dS dY ps)
          = paramsIn place [(parameter_In p, param, schema)] @ paramsIn place (compiledParams dB dS dY ps)"
        by (rule paramsIn_Cons)
      from Cons.IH [OF c] show ?thesis
        by (simp add: compiledParams_Cons Inr Some ps' paramsIn_addParam e)
    qed
  qed
qed

lemma decodeOrFatal_Inr:
  "decodeOrFatal dY node = Inr v \<longleftrightarrow> dY node = Inr v"
  by (simp add: decodeOrFatal_def split: sum.splits)

lemma schemaInfo_Inr:
  assumes "schemaInfo dY schema = Inr (typ, def, ex)"
  shows "(case schema of None \<Rightarrow> typ = ''string'' | Some s \<Rightarrow> schemaType s = Inr typ)"
    and "(case schema of
            None \<Rightarrow> def = None
          | Some s \<Rightarrow> (case schema_Default s of
                         None \<Rightarrow> def = None | Some node \<Rightarrow> dY node = Inr def))"
    and "(case schema of
            None \<Rightarrow> ex = None
          | Some s \<Rightarrow> (case schema_Example s of
                         None \<Rightarrow> ex = None | Some node \<Rightarrow> dY node = Inr ex))"
proof -
  show "(case schema of None \<Rightarrow> typ = ''string'' | Some s \<Rightarrow> schemaType s = Inr typ)"
    using assms by (cases schema) (auto simp: schemaInfo_def split: sum.splits)
  show "(case schema of
            None \<Rightarrow> def = None
          | Some s \<Rightarrow> (case schema_Default s of
                         None \<Rightarrow> def = None | Some node \<Rightarrow> dY node = Inr def))"
  proof (cases schema)
    case None
    with assms show ?thesis by (simp add: schemaInfo_def)
  next
    case (Some s)
    with assms show ?thesis
      by (cases "schema_Default s")
         (auto simp: schemaInfo_def decodeOrFatal_Inr split: sum.splits)
  qed
  show "(case schema of
            None \<Rightarrow> ex = None
          | Some s \<Rightarrow> (case schema_Example s of
                         None \<Rightarrow> ex = None | Some node \<Rightarrow> dY node = Inr ex))"
  proof (cases schema)
    case None
    with assms show ?thesis by (simp add: schemaInfo_def)
  next
    case (Some s)
    with assms show ?thesis
      by (cases "schema_Example s")
         (auto simp: schemaInfo_def decodeOrFatal_Inr split: sum.splits)
  qed
qed

lemma compileParam_Some:
  assumes "compileParam dB dS dY p = Inr (Some (prm, sch))"
  shows "\<not> getExtOr dB (parameter_Extensions p) ExtIgnore False"
    and "sch = parameter_Schema p"
    and "\<exists>ex. schemaInfo dY (parameter_Schema p) = Inr (param_Type prm, param_Default prm, ex)
          \<and> (case parameter_Example p of
                None \<Rightarrow> param_Example prm = ex
              | Some node \<Rightarrow> dY node = Inr (param_Example prm))"
    and "param_Name prm = parameter_Name p"
    and "param_Style prm = (if parameter_Style p = ''form'' then StyleForm else StyleSimple)"
    and "param_Explode prm = (parameter_Explode p = Some True)"
proof -
  from assms show i: "\<not> getExtOr dB (parameter_Extensions p) ExtIgnore False"
    by (auto simp: compileParam_def)
  from assms i obtain ty dflt ex where
    s: "schemaInfo dY (parameter_Schema p) = Inr (ty, dflt, ex)"
    by (auto simp: compileParam_def split: sum.splits)
  from assms i s obtain example where
    e: "(case parameter_Example p of None \<Rightarrow> Inr ex | Some node \<Rightarrow> decodeOrFatal dY node)
          = Inr example"
    by (auto simp: compileParam_def split: sum.splits)
  from assms i s e have prm: "prm =
      \<lparr>param_Type = ty, param_Name = parameter_Name p,
       param_DisplayName = getExtOr dS (parameter_Extensions p) ExtName [],
       param_Description = getExtOr dS (parameter_Extensions p) ExtDescription
                              (parameter_Description p),
       param_Style = (if parameter_Style p = ''form'' then StyleForm else StyleSimple),
       param_Explode = (case parameter_Explode p of None \<Rightarrow> False | Some b \<Rightarrow> b),
       param_Default = dflt, param_Example = example\<rparr>"
    and sch: "sch = parameter_Schema p"
    by (simp_all add: compileParam_def)
  show "sch = parameter_Schema p" by (rule sch)
  show "param_Name prm = parameter_Name p" by (simp add: prm)
  show "param_Style prm = (if parameter_Style p = ''form'' then StyleForm else StyleSimple)"
    by (simp add: prm)
  show "param_Explode prm = (parameter_Explode p = Some True)"
    by (cases "parameter_Explode p") (simp_all add: prm)
  have "case parameter_Example p of
                None \<Rightarrow> param_Example prm = ex
              | Some node \<Rightarrow> dY node = Inr (param_Example prm)"
    using e by (cases "parameter_Example p") (auto simp: prm decodeOrFatal_Inr)
  with s show "\<exists>ex. schemaInfo dY (parameter_Schema p) = Inr (param_Type prm, param_Default prm, ex)
          \<and> (case parameter_Example p of
                None \<Rightarrow> param_Example prm = ex
              | Some node \<Rightarrow> dY node = Inr (param_Example prm))"
    by (auto simp: prm)
qed

lemma schemaType_Inr:
  "schemaType s = Inr t \<Longrightarrow>
     t = (if schema_Type s = [] then ''string''
          else if hd (schema_Type s) = ''array'' then
            (case schema_Items s of
               Some (ItemsA (Some (it # its))) \<Rightarrow> ''array['' @ it @ '']''
             | _ \<Rightarrow> ''array'')
          else hd (schema_Type s))"
  by (auto simp: schemaType_def Let_def split: if_splits option.splits SchemaItems.splits list.splits)

lemma schemaType_total:
  "schema_Items s \<noteq> Some (ItemsA None) \<Longrightarrow> \<exists>t. schemaType s = Inr t"
  by (auto simp: schemaType_def Let_def split: if_splits option.splits SchemaItems.splits)

lemma schemaInfo_total:
  assumes "\<forall>node. \<exists>v. dY node = Inr v"
    and "\<forall>s. schema = Some s \<longrightarrow> schema_Items s \<noteq> Some (ItemsA None)"
  shows "\<exists>r. schemaInfo dY schema = Inr r"
proof (cases schema)
  case None
  then show ?thesis by (simp add: schemaInfo_def)
next
  case (Some s)
  with assms(2) obtain t where t: "schemaType s = Inr t"
    using schemaType_total by blast
  have d: "\<exists>v. (case schema_Default s of None \<Rightarrow> Inr None
                 | Some node \<Rightarrow> decodeOrFatal dY node) = Inr v"
    using assms(1) by (cases "schema_Default s") (auto simp: decodeOrFatal_Inr)
  have e: "\<exists>v. (case schema_Example s of None \<Rightarrow> Inr None
                 | Some node \<Rightarrow> decodeOrFatal dY node) = Inr v"
    using assms(1) by (cases "schema_Example s") (auto simp: decodeOrFatal_Inr)
  from d e t show ?thesis
    unfolding schemaInfo_def Some by auto
qed

lemma compileParam_total:
  assumes "\<forall>node. \<exists>v. dY node = Inr v"
    and "\<forall>s. parameter_Schema p = Some s \<longrightarrow> schema_Items s \<noteq> Some (ItemsA None)"
  shows "\<exists>c. compileParam dB dS dY p = Inr c
          \<and> (\<not> getExtOr dB (parameter_Extensions p) ExtIgnore False \<longrightarrow>
               (\<exists>prm. c = Some (prm, parameter_Schema p)))"
proof (cases "getExtOr dB (parameter_Extensions p) ExtIgnore False")
  case True
  then show ?thesis by (simp add: compileParam_def)
next
  case False
  from schemaInfo_total [OF assms] obtain ty dflt ex where
    s: "schemaInfo dY (parameter_Schema p) = Inr (ty, dflt, ex)"
    by (metis prod_cases3)
  have "\<exists>v. (case parameter_Example p of None \<Rightarrow> Inr ex
               | Some node \<Rightarrow> decodeOrFatal dY node) = Inr v"
    using assms(1) by (cases "parameter_Example p") (auto simp: decodeOrFatal_Inr)
  then obtain v where
    e: "(case parameter_Example p of None \<Rightarrow> Inr ex
         | Some node \<Rightarrow> decodeOrFatal dY node) = Inr v" ..
  show ?thesis
    using False by (simp add: compileParam_def s e)
qed

lemma collectParams_total:
  assumes "\<forall>node. \<exists>v. dY node = Inr v"
  shows "\<forall>p \<in> set ps. \<forall>s. parameter_Schema p = Some s \<longrightarrow> schema_Items s \<noteq> Some (ItemsA None)
    \<Longrightarrow> \<exists>r. collectParams dB dS dY ps acc = Inr r"
proof (induction ps arbitrary: acc)
  case Nil
  then show ?case by simp
next
  case (Cons p ps)
  from Cons.prems have
    "\<forall>s. parameter_Schema p = Some s \<longrightarrow> schema_Items s \<noteq> Some (ItemsA None)" by simp
  from compileParam_total [OF assms this, of dB dS]
  obtain c where c: "compileParam dB dS dY p = Inr c" by blast
  from Cons.prems have r:
    "\<forall>p \<in> set ps. \<forall>s. parameter_Schema p = Some s \<longrightarrow> schema_Items s \<noteq> Some (ItemsA None)"
    by simp
  show ?case
  proof (cases c)
    case None
    with c Cons.IH [OF r] show ?thesis by simp
  next
    case (Some a)
    obtain prm sch where "a = (prm, sch)" by (cases a)
    with c Some Cons.IH [OF r] show ?thesis by simp
  qed
qed

text \<open>
  Claim C5, as the code has it.  The merged parameters are the operation's, all of
  them and in their order, followed by the path item's parameters whose name no
  operation parameter has.  A merged parameter that carries the ignore extension
  yields nothing; every other one yields a \<open>Param\<close> (when the YAML library decodes
  its default and examples) with the parameter's name, the type inferred from the
  schema (\<open>string\<close> without a schema or a declared type, and \<open>array[t]\<close> for an
  array whose items declare the type \<open>t\<close>), the style \<open>form\<close> when that is declared
  and \<open>simple\<close> otherwise, the declared explode flag (false when undeclared), the
  decoded schema default, and as example the parameter's example when there is one,
  else the schema's example, else none: the schema default is not used as an
  example.  The path, query and header lists of the operation are the compiled
  parameters of each place, in the merged order.
\<close>

theorem operationParams_merge:
  "combineParams opPs pathPs =
     opPs @ filter (\<lambda>p. parameter_Name p \<notin> parameter_Name ` set opPs) pathPs
   \<and> (\<forall>r. operationParams dB dS dY opPs pathPs = Inr r \<longrightarrow>
         pathParams r = paramsIn ''path'' (compiledParams dB dS dY (combineParams opPs pathPs))
       \<and> queryParams r = paramsIn ''query'' (compiledParams dB dS dY (combineParams opPs pathPs))
       \<and> headerParams r = paramsIn ''header'' (compiledParams dB dS dY (combineParams opPs pathPs)))
   \<and> ((\<forall>node. \<exists>v. dY node = Inr v)
        \<and> (\<forall>p \<in> set (opPs @ pathPs). \<forall>s. parameter_Schema p = Some s \<longrightarrow>
              schema_Items s \<noteq> Some (ItemsA None)) \<longrightarrow>
       (\<exists>r. operationParams dB dS dY opPs pathPs = Inr r)
       \<and> (\<forall>p \<in> set (combineParams opPs pathPs).
            if getExtOr dB (parameter_Extensions p) ExtIgnore False
            then compileParam dB dS dY p = Inr None
            else (\<exists>prm. compileParam dB dS dY p = Inr (Some (prm, parameter_Schema p)))))
   \<and> (\<forall>prm sch. compileParam dB dS dY p = Inr (Some (prm, sch)) \<longrightarrow>
         param_Name prm = parameter_Name p
       \<and> (case parameter_Schema p of
            None \<Rightarrow> param_Type prm = ''string''
          | Some s \<Rightarrow>
              param_Type prm =
                (if schema_Type s = [] then ''string''
                 else if hd (schema_Type s) = ''array'' then
                   (case schema_Items s of
                      Some (ItemsA (Some (it # its))) \<Rightarrow> ''array['' @ it @ '']''
                    | _ \<Rightarrow> ''array'')
                 else hd (schema_Type s)))
       \<and> param_Style prm = (if parameter_Style p = ''form'' then StyleForm else StyleSimple)
       \<and> param_Explode prm = (parameter_Explode p = Some True)
       \<and> (case parameter_Schema p of
            None \<Rightarrow> param_Default prm = None
          | Some s \<Rightarrow> (case schema_Default s of
                         None \<Rightarrow> param_Default prm = None
                       | Some node \<Rightarrow> dY node = Inr (param_Default prm)))
       \<and> (case parameter_Example p of
            Some node \<Rightarrow> dY node = Inr (param_Example prm)
          | None \<Rightarrow>
              (case parameter_Schema p of
                 None \<Rightarrow> param_Example prm = None
               | Some s \<Rightarrow> (case schema_Example s of
                              Some node \<Rightarrow> dY node = Inr (param_Example prm)
                            | None \<Rightarrow> param_Example prm = None))))"
proof (intro conjI allI impI)
  show "combineParams opPs pathPs =
     opPs @ filter (\<lambda>p. parameter_Name p \<notin> parameter_Name ` set opPs) pathPs"
    by (rule combineParams_eq)
next
  fix r
  assume "operationParams dB dS dY opPs pathPs = Inr r"
  then have "collectParams dB dS dY (combineParams opPs pathPs) noParams = Inr r"
    by (simp add: operationParams_def)
  note l = collectParams_lists [OF this]
  from l show "pathParams r = paramsIn ''path'' (compiledParams dB dS dY (combineParams opPs pathPs))"
    by (simp add: noParams_def)
  from l show "queryParams r = paramsIn ''query'' (compiledParams dB dS dY (combineParams opPs pathPs))"
    by (simp add: noParams_def)
  from l show "headerParams r = paramsIn ''header'' (compiledParams dB dS dY (combineParams opPs pathPs))"
    by (simp add: noParams_def)
next
  assume a: "(\<forall>node. \<exists>v. dY node = Inr v)
        \<and> (\<forall>p \<in> set (opPs @ pathPs). \<forall>s. parameter_Schema p = Some s \<longrightarrow>
              schema_Items s \<noteq> Some (ItemsA None))"
  then have d: "\<forall>node. \<exists>v. dY node = Inr v" by simp
  from a have i: "\<forall>p \<in> set (combineParams opPs pathPs). \<forall>s. parameter_Schema p = Some s \<longrightarrow>
              schema_Items s \<noteq> Some (ItemsA None)"
    by (auto simp: combineParams_eq)
  show "\<exists>r. operationParams dB dS dY opPs pathPs = Inr r"
    unfolding operationParams_def by (rule collectParams_total [OF d i])
  show "\<forall>p \<in> set (combineParams opPs pathPs).
            if getExtOr dB (parameter_Extensions p) ExtIgnore False
            then compileParam dB dS dY p = Inr None
            else (\<exists>prm. compileParam dB dS dY p = Inr (Some (prm, parameter_Schema p)))"
  proof
    fix q
    assume "q \<in> set (combineParams opPs pathPs)"
    with i have "\<forall>s. parameter_Schema q = Some s \<longrightarrow> schema_Items s \<noteq> Some (ItemsA None)"
      by simp
    note t = compileParam_total [OF d this, of dB dS]
    show "if getExtOr dB (parameter_Extensions q) ExtIgnore False
            then compileParam dB dS dY q = Inr None
            else (\<exists>prm. compileParam dB dS dY q = Inr (Some (prm, parameter_Schema q)))"
    proof (cases "getExtOr dB (parameter_Extensions q) ExtIgnore False")
      case True
      then show ?thesis by (simp add: compileParam_def)
    next
      case False
      with t show ?thesis by auto
    qed
  qed
next
  fix prm sch
  assume c: "compileParam dB dS dY p = Inr (Some (prm, sch))"
  note f = compileParam_Some [OF c]
  from f(3) obtain ex where
    s: "schemaInfo dY (parameter_Schema p) = Inr (param_Type prm, param_Default prm, ex)"
    and e: "(case parameter_Example p of
                None \<Rightarrow> param_Example prm = ex
              | Some node \<Rightarrow> dY node = Inr (param_Example prm))" by blast
  note g = schemaInfo_Inr [OF s]
  show "param_Name prm = parameter_Name p" by (rule f(4))
  show "param_Style prm = (if parameter_Style p = ''form'' then StyleForm else StyleSimple)"
    by (rule f(5))
  show "param_Explode prm = (parameter_Explode p = Some True)" by (rule f(6))
  show "(case parameter_Schema p of
            None \<Rightarrow> param_Default prm = None
          | Some s \<Rightarrow> (case schema_Default s of
                         None \<Rightarrow> param_Default prm = None
                       | Some node \<Rightarrow> dY node = Inr (param_Default prm)))"
    by (rule g(2))
  show "(case parameter_Schema p of
            None \<Rightarrow> param_Type prm = ''string''
          | Some s \<Rightarrow>
              param_Type prm =
                (if schema_Type s = [] then ''string''
                 else if hd (schema_Type s) = ''array'' then
                   (case schema_Items s of
                      Some (ItemsA (Some (it # its))) \<Rightarrow> ''array['' @ it @ '']''
                    | _ \<Rightarrow> ''array'')
                 else hd (schema_Type s)))"
  proof (cases "parameter_Schema p")
    case None
    with g(1) show ?thesis by simp
  next
    case (Some s)
    with g(1) have "schemaType s = Inr (param_Type prm)" by simp
    from schemaType_Inr [OF this] Some show ?thesis by simp
  qed
  show "(case parameter_Example p of
            Some node \<Rightarrow> dY node = Inr (param_Example prm)
          | None \<Rightarrow>
              (case parameter_Schema p of
                 None \<Rightarrow> param_Example prm = None
               | Some s \<Rightarrow> (case schema_Example s of
                              Some node \<Rightarrow> dY node = Inr (param_Example prm)
                            | None \<Rightarrow> param_Example prm = None)))"
  proof (cases "parameter_Example p")
    case None
    with e have x: "ex = param_Example prm" by simp
    from g(3) show ?thesis unfolding x None by simp
  next
    case (Some node)
    with e show ?thesis by simp
  qed
qed

theorem operationParams_merge_witness:
  "combineParams [exParamLimit, exParamTags] [exParamLimitPath, exParamId]
     = [exParamLimit, exParamTags, exParamId]
   \<and> (\<exists>r. operationParams exDecodeBool Some exDecodeYAML
              [exParamLimit, exParamTags] [exParamLimitPath, exParamId] = Inr r
          \<and> map param_Name (queryParams r) = [''limit'', ''tags'']
          \<and> map param_Type (queryParams r) = [''integer'', ''array[string]'']
          \<and> map param_Style (queryParams r) = [StyleForm, StyleSimple]
          \<and> map param_Explode (queryParams r) = [True, False]
          \<and> map param_Default (queryParams r) = [Some ''10'', Some ''d'']
          \<and> map param_Example (queryParams r) = [None, Some ''p'']
          \<and> map param_Name (pathParams r) = [''id'']
          \<and> headerParams r = [])
   \<and> (\<exists>prm. compileParam exDecodeBool Some exDecodeYAML exParamTags
                = Inr (Some (prm, parameter_Schema exParamTags))
          \<and> param_Type prm = ''array[string]''
          \<and> exDecodeYAML ''p'' = Inr (param_Example prm)
          \<and> exDecodeYAML ''d'' = Inr (param_Default prm))"
proof -
  let ?op = "[exParamLimit, exParamTags]" and ?path = "[exParamLimitPath, exParamId]"
  note t = operationParams_merge [of ?op ?path exDecodeBool Some exDecodeYAML]
  have c: "combineParams ?op ?path = [exParamLimit, exParamTags, exParamId]"
    using t [THEN conjunct1]
    by (simp add: exParamLimit_def exParamTags_def exParamLimitPath_def exParamId_def)
  have h: "(\<forall>node. \<exists>v. exDecodeYAML node = Inr v)
        \<and> (\<forall>p \<in> set (?op @ ?path). \<forall>s. parameter_Schema p = Some s \<longrightarrow>
              schema_Items s \<noteq> Some (ItemsA None))"
    by (simp add: exDecodeYAML_def exParamLimit_def exParamTags_def exParamLimitPath_def
        exParamId_def)
  from t [THEN conjunct2, THEN conjunct2, THEN conjunct1, rule_format, OF h, THEN conjunct1]
  obtain r where r: "operationParams exDecodeBool Some exDecodeYAML ?op ?path = Inr r" ..
  note l = t [THEN conjunct2, THEN conjunct1, rule_format, OF r]
  have cp: "compiledParams exDecodeBool Some exDecodeYAML [exParamLimit, exParamTags, exParamId] =
     [(''query'', \<lparr>param_Type = ''integer'', param_Name = ''limit'', param_DisplayName = [],
          param_Description = [], param_Style = StyleForm, param_Explode = True,
          param_Default = Some ''10'', param_Example = None\<rparr>, parameter_Schema exParamLimit),
      (''query'', \<lparr>param_Type = ''array[string]'', param_Name = ''tags'', param_DisplayName = [],
          param_Description = [], param_Style = StyleSimple, param_Explode = False,
          param_Default = Some ''d'', param_Example = Some ''p''\<rparr>, parameter_Schema exParamTags),
      (''path'', \<lparr>param_Type = ''string'', param_Name = ''id'', param_DisplayName = [],
          param_Description = [], param_Style = StyleSimple, param_Explode = False,
          param_Default = None, param_Example = None\<rparr>, parameter_Schema exParamId)]"
    by (simp add: compiledParams_def map_filter_simps compileParam_def schemaInfo_def
        schemaType_def decodeOrFatal_def getExtOr_def getExt_def exDecodeYAML_def
        exParamLimit_def exParamTags_def exParamId_def)
  from l have q:
    "map param_Name (queryParams r) = [''limit'', ''tags'']
     \<and> map param_Type (queryParams r) = [''integer'', ''array[string]'']
     \<and> map param_Style (queryParams r) = [StyleForm, StyleSimple]
     \<and> map param_Explode (queryParams r) = [True, False]
     \<and> map param_Default (queryParams r) = [Some ''10'', Some ''d'']
     \<and> map param_Example (queryParams r) = [None, Some ''p'']
     \<and> map param_Name (pathParams r) = [''id'']
     \<and> headerParams r = []"
    unfolding c cp by (simp add: paramsIn_def)
  have "operationParams exDecodeBool Some exDecodeYAML ?op ?path = Inr r
     \<and> map param_Name (queryParams r) = [''limit'', ''tags'']
     \<and> map param_Type (queryParams r) = [''integer'', ''array[string]'']
     \<and> map param_Style (queryParams r) = [StyleForm, StyleSimple]
     \<and> map param_Explode (queryParams r) = [True, False]
     \<and> map param_Default (queryParams r) = [Some ''10'', Some ''d'']
     \<and> map param_Example (queryParams r) = [None, Some ''p'']
     \<and> map param_Name (pathParams r) = [''id'']
     \<and> headerParams r = []"
    by (rule conjI [OF r q])
  then have "\<exists>r. operationParams exDecodeBool Some exDecodeYAML ?op ?path = Inr r
     \<and> map param_Name (queryParams r) = [''limit'', ''tags'']
     \<and> map param_Type (queryParams r) = [''integer'', ''array[string]'']
     \<and> map param_Style (queryParams r) = [StyleForm, StyleSimple]
     \<and> map param_Explode (queryParams r) = [True, False]
     \<and> map param_Default (queryParams r) = [Some ''10'', Some ''d'']
     \<and> map param_Example (queryParams r) = [None, Some ''p'']
     \<and> map param_Name (pathParams r) = [''id'']
     \<and> headerParams r = []"
    by (rule exI)
  then have 12: "combineParams ?op ?path = [exParamLimit, exParamTags, exParamId]
   \<and> (\<exists>r. operationParams exDecodeBool Some exDecodeYAML ?op ?path = Inr r
     \<and> map param_Name (queryParams r) = [''limit'', ''tags'']
     \<and> map param_Type (queryParams r) = [''integer'', ''array[string]'']
     \<and> map param_Style (queryParams r) = [StyleForm, StyleSimple]
     \<and> map param_Explode (queryParams r) = [True, False]
     \<and> map param_Default (queryParams r) = [Some ''10'', Some ''d'']
     \<and> map param_Example (queryParams r) = [None, Some ''p'']
     \<and> map param_Name (pathParams r) = [''id'']
     \<and> headerParams r = [])"
    using c by (rule conjI [rotated])
  have tg: "exParamTags \<in> set (combineParams ?op ?path)"
    unfolding c by simp
  have ig: "\<not> getExtOr exDecodeBool (parameter_Extensions exParamTags) ExtIgnore False"
    by (simp add: getExtOr_def getExt_def exParamTags_def)
  from t [THEN conjunct2, THEN conjunct2, THEN conjunct1, THEN mp, OF h, THEN conjunct2,
      THEN bspec, OF tg] ig
  obtain prm where prm: "compileParam exDecodeBool Some exDecodeYAML exParamTags
      = Inr (Some (prm, parameter_Schema exParamTags))"
    by auto
  note f = operationParams_merge [where dB = exDecodeBool and dS = Some and dY = exDecodeYAML
      and p = exParamTags, THEN conjunct2, THEN conjunct2, THEN conjunct2, THEN spec, THEN spec,
      THEN mp, OF prm]
  have "param_Type prm = ''array[string]''
     \<and> exDecodeYAML ''p'' = Inr (param_Example prm)
     \<and> exDecodeYAML ''d'' = Inr (param_Default prm)"
    using f by (simp add: exParamTags_def)
  with prm have "compileParam exDecodeBool Some exDecodeYAML exParamTags
                = Inr (Some (prm, parameter_Schema exParamTags))
          \<and> param_Type prm = ''array[string]''
          \<and> exDecodeYAML ''p'' = Inr (param_Example prm)
          \<and> exDecodeYAML ''d'' = Inr (param_Default prm)"
    by (rule conjI)
  then have 3: "\<exists>prm. compileParam exDecodeBool Some exDecodeYAML exParamTags
                = Inr (Some (prm, parameter_Schema exParamTags))
          \<and> param_Type prm = ''array[string]''
          \<and> exDecodeYAML ''p'' = Inr (param_Example prm)
          \<and> exDecodeYAML ''d'' = Inr (param_Default prm)"
    by (rule exI)
  show ?thesis
    using 12 3 by (simp only: conj_assoc simp_thms)
qed


text \<open>
  The claim as the specification words it fails: a parameter without examples whose
  schema has a default gets no example.
\<close>

theorem compileParam_example_counterexample:
  "compileParam exDecodeBool Some exDecodeYAML exParamLimit =
     Inr (Some (\<lparr>param_Type = ''integer'', param_Name = ''limit'', param_DisplayName = [],
          param_Description = [], param_Style = StyleForm, param_Explode = True,
          param_Default = Some ''10'', param_Example = None\<rparr>, parameter_Schema exParamLimit))
   \<and> spec_example None None (Some ''10'') = Some ''10''"
  by (simp add: compileParam_def schemaInfo_def schemaType_def decodeOrFatal_def getExtOr_def
      getExt_def exDecodeYAML_def exParamLimit_def spec_example_def)
section \<open>Base-path resolution\<close>

lemma set_expandVariable:
  "set (expandVariable es kv) =
     (\<lambda>(val, e). ReplaceAll e (''{'' @ fst kv @ ''}'') val) ` (set (candidates (snd kv)) \<times> set es)"
  by (auto simp: expandVariable_def candidates_def Let_def)

lemma length_expandVariable:
  "length (expandVariable es kv) = length (candidates (snd kv)) * length es"
  by (simp add: expandVariable_def candidates_def Let_def length_concat comp_def sum_list_triv)

lemma set_choices_Cons:
  "set (choices (kv # vars)) =
     (\<lambda>(val, vals). val # vals) ` (set (candidates (snd kv)) \<times> set (choices vars))"
  by auto

lemma length_choices:
  "length (choices vars) = prod_list (map (\<lambda>kv. length (candidates (snd kv))) vars)"
  by (induction vars) (simp_all add: length_concat comp_def sum_list_triv)

lemma set_foldl_expandVariable:
  "set (foldl expandVariable es vars) =
     (\<lambda>(e, vals). substitute e vars vals) ` (set es \<times> set (choices vars))"
proof (induction vars arbitrary: es)
  case Nil
  then show ?case by (auto simp: image_iff)
next
  case (Cons kv vars)
  have "set (foldl expandVariable es (kv # vars)) =
          (\<lambda>(e, vals). substitute e vars vals) ` (set (expandVariable es kv) \<times> set (choices vars))"
    by (simp add: Cons.IH)
  also have "\<dots> = (\<lambda>(e, vals). substitute e (kv # vars) vals) ` (set es \<times> set (choices (kv # vars)))"
    unfolding set_expandVariable set_choices_Cons
    by (auto simp: image_iff) force+
  finally show ?case .
qed

lemma length_foldl_expandVariable:
  "length (foldl expandVariable es vars) = length (choices vars) * length es"
  by (induction vars arbitrary: es)
     (simp_all add: length_expandVariable length_concat comp_def sum_list_triv)

lemma getBasePath_find:
  "getBasePath urlParse location servers =
     (case find (\<lambda>s. HasPrefix (server_URL s) ''/''
                   \<or> (\<exists>e \<in> set (expandServer s). HasPrefix e (locationPrefix location))) servers of
        None \<Rightarrow> Inr (url_Path location)
      | Some s \<Rightarrow>
          if HasPrefix (server_URL s) ''/'' then Inr (server_URL s)
          else (case find (\<lambda>e. HasPrefix e (locationPrefix location)) (expandServer s) of
                  None \<Rightarrow> Inr (url_Path location)
                | Some e \<Rightarrow> (case urlParse e of
                               Inl err \<Rightarrow> Inl err
                             | Inr base \<Rightarrow> Inr (TrimSuffix (url_Path base) ''/''))))"
proof (induction servers)
  case Nil
  then show ?case by simp
next
  case (Cons s servers)
  show ?case
  proof (cases "HasPrefix (server_URL s) ''/''")
    case True
    then show ?thesis by simp
  next
    case False
    show ?thesis
    proof (cases "find (\<lambda>e. HasPrefix e (locationPrefix location)) (expandServer s)")
      case None
      then have "\<not> (\<exists>e \<in> set (expandServer s). HasPrefix e (locationPrefix location))"
        by (simp add: find_None_iff)
      with False None Cons.IH show ?thesis by simp
    next
      case (Some e)
      then have "\<exists>e \<in> set (expandServer s). HasPrefix e (locationPrefix location)"
        by (auto simp: find_Some_iff)
      with False Some show ?thesis by simp
    qed
  qed
qed

text \<open>
  Claim C3, as the code has it.  \<open>getBasePath\<close> takes the servers in declaration
  order and stops at the first one that is relative (its URL starts with a slash) or
  has an expanded URL of which \<open>scheme://host\<close> of the configured base is a string
  prefix.  For a relative server it returns the server's URL as it is; otherwise it
  parses the first such expanded URL and returns its path without one trailing
  slash, or the parse error.  When no server qualifies it returns the configured
  base's own path.  The expanded URLs of a server are the cross-product of its
  variables' values: the URL with, for every choice of one value per variable (an
  enumerated value, or the default when nothing is enumerated), the values
  substituted in the order of the variables.
\<close>

theorem getBasePath_resolution:
  "getBasePath urlParse location servers =
     (case find (\<lambda>s. HasPrefix (server_URL s) ''/''
                   \<or> (\<exists>e \<in> set (expandServer s). HasPrefix e (locationPrefix location))) servers of
        None \<Rightarrow> Inr (url_Path location)
      | Some s \<Rightarrow>
          if HasPrefix (server_URL s) ''/'' then Inr (server_URL s)
          else (case find (\<lambda>e. HasPrefix e (locationPrefix location)) (expandServer s) of
                  None \<Rightarrow> Inr (url_Path location)
                | Some e \<Rightarrow> (case urlParse e of
                               Inl err \<Rightarrow> Inl err
                             | Inr base \<Rightarrow> Inr (TrimSuffix (url_Path base) ''/''))))
   \<and> set (expandServer s) =
       substitute (server_URL s) (server_Variables s) ` set (choices (server_Variables s))
   \<and> length (expandServer s) =
       prod_list (map (\<lambda>kv. length (candidates (snd kv))) (server_Variables s))
   \<and> ((\<forall>s \<in> set servers. \<not> HasPrefix (server_URL s) ''/''
          \<and> (\<forall>e \<in> set (expandServer s). \<not> HasPrefix e (locationPrefix location))) \<longrightarrow>
       getBasePath urlParse location servers = Inr (url_Path location))"
proof (intro conjI impI)
  show "getBasePath urlParse location servers =
     (case find (\<lambda>s. HasPrefix (server_URL s) ''/''
                   \<or> (\<exists>e \<in> set (expandServer s). HasPrefix e (locationPrefix location))) servers of
        None \<Rightarrow> Inr (url_Path location)
      | Some s \<Rightarrow>
          if HasPrefix (server_URL s) ''/'' then Inr (server_URL s)
          else (case find (\<lambda>e. HasPrefix e (locationPrefix location)) (expandServer s) of
                  None \<Rightarrow> Inr (url_Path location)
                | Some e \<Rightarrow> (case urlParse e of
                               Inl err \<Rightarrow> Inl err
                             | Inr base \<Rightarrow> Inr (TrimSuffix (url_Path base) ''/''))))"
    by (rule getBasePath_find)
  show "set (expandServer s) =
       substitute (server_URL s) (server_Variables s) ` set (choices (server_Variables s))"
    unfolding expandServer_def set_foldl_expandVariable by (auto simp: image_iff)
  show "length (expandServer s) =
       prod_list (map (\<lambda>kv. length (candidates (snd kv))) (server_Variables s))"
    unfolding expandServer_def length_foldl_expandVariable by (simp add: length_choices)
next
  assume "\<forall>s \<in> set servers. \<not> HasPrefix (server_URL s) ''/''
          \<and> (\<forall>e \<in> set (expandServer s). \<not> HasPrefix e (locationPrefix location))"
  then have "find (\<lambda>s. HasPrefix (server_URL s) ''/''
                   \<or> (\<exists>e \<in> set (expandServer s). HasPrefix e (locationPrefix location))) servers
             = None"
    by (auto simp: find_None_iff)
  then show "getBasePath urlParse location servers = Inr (url_Path location)"
    unfolding getBasePath_find by simp
qed

lemma expandServer_exServerVars:
  "expandServer exServerVars =
     [''https://staging.example.com/us/v2/'', ''https://api.example.com/us/v2/'',
      ''https://staging.example.com/eu/v2/'', ''https://api.example.com/eu/v2/'']"
  by (simp add: expandServer_def exServerVars_def expandVariable_def Let_def)

theorem getBasePath_resolution_witness:
  "getBasePath exUrlParse exLocation [exServerVars] = Inr ''/us/v2''
   \<and> length (expandServer exServerVars) = 4
   \<and> getBasePath exUrlParse exLocation [] = Inr ''/foo''"
proof -
  note t = getBasePath_resolution [of exUrlParse exLocation _ exServerVars]
  have p: "locationPrefix exLocation = ''https://api.example.com''"
    by (simp add: locationPrefix_def exLocation_def)
  have u: "server_URL exServerVars = ''https://{host}/{region}/{version}/''"
    by (simp add: exServerVars_def)
  have 1: "getBasePath exUrlParse exLocation [exServerVars] = Inr ''/us/v2''"
    using t [of "[exServerVars]", THEN conjunct1]
    unfolding p
    by (simp add: expandServer_exServerVars u HasPrefix_def exUrlParse_def TrimSuffix_def
        suffix_to_prefix)
  have 2: "length (expandServer exServerVars) = 4"
    using t [of "[]", THEN conjunct2, THEN conjunct2, THEN conjunct1]
    by (simp add: exServerVars_def candidates_def)
  have h: "\<forall>s \<in> set []. \<not> HasPrefix (server_URL s) ''/''
          \<and> (\<forall>e \<in> set (expandServer s). \<not> HasPrefix e (locationPrefix exLocation))"
    by simp
  have 3: "getBasePath exUrlParse exLocation [] = Inr ''/foo''"
    using t [of "[]", THEN conjunct2, THEN conjunct2, THEN conjunct2, THEN mp, OF h]
    by (simp add: exLocation_def)
  show ?thesis by (rule conjI [OF 1 conjI [OF 2 3]])
qed

text \<open>
  The claim as the specification words it fails: a relative server URL is returned
  at once although it has no scheme and host, and a server on another host whose URL
  merely begins with the base's \<open>scheme://host\<close> is taken.
\<close>

theorem getBasePath_relative_counterexample:
  "getBasePath exUrlParse exLocation [exServerRelative] = Inr ''/v1''
   \<and> spec_getBasePath exUrlParse exLocation [exServerRelative] = Inr ''/foo''
   \<and> getBasePath exUrlParse exLocation [exServerOtherHost] = Inr ''/v3''
   \<and> spec_getBasePath exUrlParse exLocation [exServerOtherHost] = Inr ''/foo''"
  by (simp add: spec_getBasePath_def expandServer_def exServerRelative_def exServerOtherHost_def
      exUrlParse_def exLocation_def HasPrefix_def locationPrefix_def TrimSuffix_def
      suffix_to_prefix)
section \<open>Response grouping\<close>
































end
